theory Spec2Isabelle
  imports Complex_Main
begin

section \<open>Numbers and vectors\<close>

text \<open>
  The TypeScript sources compute with \<open>number\<close>, the IEEE 754 doubles. The
  embedding reads a \<open>number\<close> as a real and computes exactly, without a
  signed zero. Rounding is not part of it, but for two places of the orbit
  module where rounding changes a result by more than a rounding error: the
  \<open>Math.acos\<close> of \<open>cartesianToElements\<close> whose argument is not clamped,
  and the sum in \<open>normalizeAngle\<close>. A \<open>[number, number, number]\<close> tuple
  is a triple of reals.
\<close>

type_synonym vec3 = "real \<times> real \<times> real"

text \<open>\<open>Math.sqrt(dx * dx + dy * dy + dz * dz)\<close>, as it is written in every module.\<close>

definition magnitude :: "vec3 \<Rightarrow> real" where
  "magnitude v = (case v of (dx, dy, dz) \<Rightarrow> sqrt (dx * dx + dy * dy + dz * dz))"

text \<open>\<open>sim/orbit/types\<close>: a Cartesian state in the ECI frame.\<close>

record CartesianState =
  position :: vec3
  velocity :: vec3

section \<open>Orbit conversions: \<open>sim/orbit/constants.ts\<close>, \<open>types.ts\<close>, \<open>conversions.ts\<close>\<close>

definition EARTH_MU :: real where
  "EARTH_MU = 398600441800000"

text \<open>
  A \<open>number\<close> that may be NaN. One number of this development can be NaN
  on finite input: the argument of periapsis that \<open>cartesianToElements\<close>
  returns, the result of a \<open>Math.acos\<close> whose argument is not clamped.
\<close>

datatype js_number = Finite real | NaN

text \<open>
  \<open>OrbitalElements\<close>. The optional fields \<open>\<nu>\<close> and \<open>M\<close> are options, with
  \<open>None\<close> for \<open>undefined\<close>.
\<close>

record OrbitalElements =
  elem_a :: real
  elem_e :: real
  elem_i :: real
  elem_Omega :: real
  elem_omega :: js_number
  elem_nu :: "real option"
  elem_M :: "real option"

text \<open>
  The three \<open>throw new Error\<close> sites of the two conversions.
  \<open>NotANumber\<close> stands for a returned state whose numbers are NaN, which
  is what arithmetic on \<open>undefined\<close> or on NaN gives.
\<close>

datatype orbit_error = MissingAnomaly | HyperbolicOrbit | AngularMomentumTooSmall | NotANumber

text \<open>
  The remainder operator \<open>%\<close> on finite numbers: the quotient is truncated
  towards zero, so the result has the sign of the dividend.
\<close>

definition js_rem :: "real \<Rightarrow> real \<Rightarrow> real" where
  "js_rem x y = x - y * of_int (if 0 \<le> x / y then \<lfloor>x / y\<rfloor> else \<lceil>x / y\<rceil>)"

text \<open>\<open>normalizeAngle(angle)\<close> in exact arithmetic, with \<open>\<pi>\<close> for \<open>Math.PI\<close>.\<close>

definition normalizeAngle :: "real \<Rightarrow> real" where
  "normalizeAngle angle =
     (let angle1 = js_rem angle (2 * pi)
      in if angle1 < 0 then angle1 + 2 * pi else angle1)"

text \<open>
  The same function on doubles. A double in the normal range is a real
  \<open>m * 2\<^sup>k\<close> with an integer \<open>m\<close>, \<open>2\<^sup>5\<^sup>2 \<le> |m| < 2\<^sup>5\<^sup>3\<close>; \<open>round_double\<close> rounds
  a real to the nearest one, a tie to the even \<open>m\<close> (overflow and subnormal
  numbers are left out). \<open>Math.PI\<close> is the double nearest to \<open>\<pi>\<close>,
  \<open>884279719003555 / 2\<^sup>4\<^sup>8\<close>, and \<open>2 * Math.PI\<close> is exact. The remainder \<open>%\<close> of two doubles is a double and
  is not rounded; the sum \<open>angle += 2 * Math.PI\<close> is rounded.
\<close>

definition round_half_even :: "real \<Rightarrow> int" where
  "round_half_even q =
     (let f = \<lfloor>q\<rfloor>
      in if q - of_int f < 1 / 2 then f
         else if 1 / 2 < q - of_int f then f + 1
         else if even f then f else f + 1)"

definition round_double :: "real \<Rightarrow> real" where
  "round_double x =
     (if x = 0 then 0
      else let k = \<lfloor>log 2 \<bar>x\<bar>\<rfloor> - 52
           in of_int (round_half_even (x / 2 powi k)) * 2 powi k)"

definition Math_PI :: real where
  "Math_PI = 884279719003555 / 2 ^ 48"

definition normalizeAngle_double :: "real \<Rightarrow> real" where
  "normalizeAngle_double angle =
     (let angle1 = js_rem angle (2 * Math_PI)
      in if angle1 < 0 then round_double (angle1 + 2 * Math_PI) else angle1)"

text \<open>\<open>Math.acos(x)\<close>: NaN outside \<open>[-1, 1]\<close>.\<close>

definition Math_acos :: "real \<Rightarrow> js_number" where
  "Math_acos x = (if - 1 \<le> x \<and> x \<le> 1 then Finite (arccos x) else NaN)"

text \<open>\<open>Math.atan2(y, x)\<close> on finite numbers, without the sign of zero.\<close>

definition atan2 :: "real \<Rightarrow> real \<Rightarrow> real" where
  "atan2 y x =
     (if 0 < x then arctan (y / x)
      else if x < 0 then (if 0 \<le> y then arctan (y / x) + pi else arctan (y / x) - pi)
      else if 0 < y then pi / 2
      else if y < 0 then - (pi / 2)
      else 0)"

text \<open>
  The Newton-Raphson loop of \<open>solveKeplerEquation\<close>, with the number of
  iterations that remain. \<open>break\<close> returns the current \<open>E\<close>, \<open>continue\<close>
  goes to the next iteration with \<open>E\<close> as it is. Every real is finite, so the
  guard \<open>!isFinite(E)\<close> never fires.
\<close>

fun kepler_iterate :: "nat \<Rightarrow> real \<Rightarrow> real \<Rightarrow> real \<Rightarrow> real" where
  "kepler_iterate 0 M e E = E"
| "kepler_iterate (Suc k) M e E =
     (let f = E - e * sin E - M;
          fPrime = 1 - e * cos E
      in if \<bar>f\<bar> < 1 / 1000000000000 then E
         else if \<bar>fPrime\<bar> < 1 / 10000000000 then kepler_iterate k M e E
         else kepler_iterate k M e (E - f / fPrime))"

definition solveKeplerEquation :: "real \<Rightarrow> real \<Rightarrow> real" where
  "solveKeplerEquation M0 e =
     (let M = normalizeAngle M0;
          E = (if e > 8 / 10 then pi else M)
      in normalizeAngle (kepler_iterate 50 M e E))"

definition trueAnomalyFromEccentric :: "real \<Rightarrow> real \<Rightarrow> real" where
  "trueAnomalyFromEccentric E e =
     (let cosE = cos E; sinE = sin E;
          cos\<nu> = (cosE - e) / (1 - e * cosE);
          sin\<nu> = (sqrt (1 - e * e) * sinE) / (1 - e * cosE)
      in normalizeAngle (atan2 sin\<nu> cos\<nu>))"

text \<open>
  The rotation \<open>R = R_z(\<Omega>) * R_x(i) * R_z(\<omega>)\<close> of \<open>elementsToCartesian\<close>,
  applied to a vector of the perifocal frame. The source writes the nine
  entries once and applies them to the position and to the velocity.
\<close>

definition perifocal_to_eci :: "real \<Rightarrow> real \<Rightarrow> real \<Rightarrow> vec3 \<Rightarrow> vec3" where
  "perifocal_to_eci \<Omega> i \<omega> u =
     (case u of (u0, u1, u2) \<Rightarrow>
        let cos\<Omega> = cos \<Omega>; sin\<Omega> = sin \<Omega>; cosi = cos i; sini = sin i;
            cos\<omega> = cos \<omega>; sin\<omega> = sin \<omega>;
            R11 = cos\<Omega> * cos\<omega> - sin\<Omega> * cosi * sin\<omega>;
            R12 = - cos\<Omega> * sin\<omega> - sin\<Omega> * cosi * cos\<omega>;
            R13 = sin\<Omega> * sini;
            R21 = sin\<Omega> * cos\<omega> + cos\<Omega> * cosi * sin\<omega>;
            R22 = - sin\<Omega> * sin\<omega> + cos\<Omega> * cosi * cos\<omega>;
            R23 = - cos\<Omega> * sini;
            R31 = sini * sin\<omega>;
            R32 = sini * cos\<omega>;
            R33 = cosi
        in (R11 * u0 + R12 * u1 + R13 * u2,
            R21 * u0 + R22 * u1 + R23 * u2,
            R31 * u0 + R32 * u1 + R33 * u2))"

text \<open>
  \<open>elementsToCartesian(elements)\<close>. For \<open>a > 0\<close> and \<open>0 \<le> e < 1\<close> it divides
  by no zero and takes the square root of no negative number. With \<open>\<omega>\<close> NaN
  six entries of the rotation are NaN and so are the six numbers of the
  returned state.
\<close>

definition elementsToCartesian :: "OrbitalElements \<Rightarrow> orbit_error + CartesianState" where
  "elementsToCartesian elements =
     (let a = elem_a elements; e = elem_e elements; i = elem_i elements;
          \<Omega> = elem_Omega elements; \<omega> = elem_omega elements
      in case (case elem_nu elements of
                 Some \<nu>0 \<Rightarrow> Some \<nu>0
               | None \<Rightarrow>
                   (case elem_M elements of
                      Some M \<Rightarrow> Some (trueAnomalyFromEccentric (solveKeplerEquation M e) e)
                    | None \<Rightarrow> None)) of
           None \<Rightarrow> Inl MissingAnomaly
         | Some \<nu> \<Rightarrow>
             let p = a * (1 - e * e);
                 r = p / (1 + e * cos \<nu>);
                 rPerifocal = (r * cos \<nu>, r * sin \<nu>, 0);
                 h = sqrt (EARTH_MU * p);
                 vPerifocal = (- (EARTH_MU / h) * sin \<nu>, (EARTH_MU / h) * (e + cos \<nu>), 0)
             in (case \<omega> of
                   NaN \<Rightarrow> Inl NotANumber
                 | Finite \<omega>1 \<Rightarrow>
                     Inr \<lparr>position = perifocal_to_eci \<Omega> i \<omega>1 rPerifocal,
                           velocity = perifocal_to_eci \<Omega> i \<omega>1 vPerifocal\<rparr>))"

text \<open>
  \<open>cartesianToElements(state)\<close>. Two places need the non-finite values of the
  source written out. With \<open>r = 0\<close> the source gets \<open>2 / r = Infinity\<close> and
  \<open>a = 0\<close>, takes no fallback, and throws at the angular momentum guard, the
  angular momentum of a zero position being 0. With \<open>r > 0\<close> and
  \<open>2 / r - v\<^sup>2 / \<mu> = 0\<close> it gets an infinite \<open>a\<close> and takes the fallback.
  Past the two guards every intermediate value is finite: \<open>a > 0\<close> and the
  angular momentum is not 0, so that \<open>e < 1\<close>.

  Of the four calls of \<open>Math.acos\<close> two clamp their argument to \<open>[-1, 1]\<close>
  and two do not. The quotient \<open>nx / n\<close> needs no clamp in doubles either:
  \<open>n\<close> is the rounded square root of a rounded sum that contains \<open>nx * nx\<close>,
  so that \<open>|nx| \<le> n\<close> and the rounded quotient stays within \<open>[-1, 1]\<close>. The
  quotient \<open>eDotN / (e * n)\<close> is within \<open>[-1, 1]\<close> in exact arithmetic and
  nothing keeps its double there: numerator and denominator are rounded
  separately, and when the vectors are parallel the double can be the next
  one above 1, of which \<open>Math.acos\<close> is NaN. The rounding error of this one
  quotient is the parameter \<open>err\<close> of the embedding: the double that the
  source passes to \<open>Math.acos\<close> is the exact quotient plus \<open>err\<close>, and
  \<open>err = 0\<close> is exact arithmetic. A NaN in \<open>\<omega>\<close> stays NaN under
  \<open>2 * Math.PI - \<omega>\<close> and under \<open>normalizeAngle\<close>. In the branch of the
  circular orbit \<open>\<omega>\<close> is the 0 that the test \<open>e < 1e-10\<close> has just given it.
\<close>

definition cartesianToElements :: "real \<Rightarrow> CartesianState \<Rightarrow> orbit_error + OrbitalElements" where
  "cartesianToElements err state =
     (case position state of (x, y, z) \<Rightarrow>
      case velocity state of (vx, vy, vz) \<Rightarrow>
        let r = sqrt (x * x + y * y + z * z);
            v = sqrt (vx * vx + vy * vy + vz * vz);
            hx = y * vz - z * vy;
            hy = z * vx - x * vz;
            hz = x * vy - y * vx;
            h = sqrt (hx * hx + hy * hy + hz * hz);
            energy = (v * v) / 2 - EARTH_MU / r;
            denom = 2 / r - (v * v) / EARTH_MU
        in if r = 0 then Inl AngularMomentumTooSmall
           else
             (case (if denom = 0 \<or> 1 / denom < 0
                    then (if energy < 0 then Inr (- EARTH_MU / (2 * energy))
                          else Inl HyperbolicOrbit)
                    else Inr (1 / denom)) of
                Inl error \<Rightarrow> Inl error
              | Inr a \<Rightarrow>
                  let v2 = v * v;
                      rv = x * vx + y * vy + z * vz;
                      ex = (1 / EARTH_MU) * ((v2 - EARTH_MU / r) * x - rv * vx);
                      ey = (1 / EARTH_MU) * ((v2 - EARTH_MU / r) * y - rv * vy);
                      ez = (1 / EARTH_MU) * ((v2 - EARTH_MU / r) * z - rv * vz);
                      e = sqrt (ex * ex + ey * ey + ez * ez)
                  in if h < 1 / 10000000000 then Inl AngularMomentumTooSmall
                     else
                       let cosI = hz / h;
                           i = arccos (max (- 1) (min 1 cosI));
                           nx = - hy;
                           ny = hx;
                           n = sqrt (nx * nx + ny * ny);
                           \<Omega> = (if n < 1 / 10000000000 then 0
                                else let \<Omega>0 = arccos (nx / n)
                                     in if ny < 0 then 2 * pi - \<Omega>0 else \<Omega>0);
                           eDotN = ex * nx + ey * ny;
                           \<omega> = (if n < 1 / 10000000000 \<or> e < 1 / 10000000000 then Finite 0
                                else (case Math_acos (eDotN / (e * n) + err) of
                                        NaN \<Rightarrow> NaN
                                      | Finite \<omega>0 \<Rightarrow>
                                          Finite (if ez < 0 then 2 * pi - \<omega>0 else \<omega>0)));
                           rDotE = x * ex + y * ey + z * ez;
                           \<nu> = (if e < 1 / 10000000000 then
                                  (if n > 1 / 10000000000 then
                                     let rDotN = x * nx + y * ny;
                                         cosArgLat = rDotN / (r * n);
                                         argLat = arccos (max (- 1) (min 1 cosArgLat));
                                         \<nu>0 = argLat - 0
                                     in if z < 0 then 2 * pi - \<nu>0 else \<nu>0
                                   else
                                     let angle = atan2 y x
                                     in normalizeAngle (angle - 0))
                                else
                                  let cos\<nu> = rDotE / (r * e);
                                      sin\<nu> = rv / (r * sqrt (EARTH_MU * a * (1 - e * e)));
                                      \<nu>0 = atan2 sin\<nu> cos\<nu>
                                  in if \<nu>0 < 0 then \<nu>0 + 2 * pi else \<nu>0)
                       in Inr \<lparr>elem_a = a, elem_e = e, elem_i = i,
                               elem_Omega = normalizeAngle \<Omega>,
                               elem_omega = (case \<omega> of
                                               NaN \<Rightarrow> NaN
                                             | Finite \<omega>1 \<Rightarrow> Finite (normalizeAngle \<omega>1)),
                               elem_nu = Some (normalizeAngle \<nu>), elem_M = None\<rparr>))"

text \<open>
  The round trip \<open>cartesianToElements(elementsToCartesian(elements))\<close>, and
  what it is to recover the elements: \<open>a\<close>, \<open>e\<close> and \<open>i\<close> within \<open>1e-2\<close>, and
  each angle within \<open>1e-2\<close> of the original modulo \<open>2\<pi>\<close>, the difference
  being normalized before it is compared, as the tests of the conversions do.
  A NaN is close to nothing.
\<close>

definition roundtrip :: "real \<Rightarrow> OrbitalElements \<Rightarrow> orbit_error + OrbitalElements" where
  "roundtrip err elements =
     (case elementsToCartesian elements of
        Inl error \<Rightarrow> Inl error
      | Inr state \<Rightarrow> cartesianToElements err state)"

definition angle_close :: "real \<Rightarrow> real \<Rightarrow> bool" where
  "angle_close x y =
     (let d = normalizeAngle (x - y) in d \<le> 1 / 100 \<or> 2 * pi - d \<le> 1 / 100)"

definition roundtrip_recovers :: "real \<Rightarrow> OrbitalElements \<Rightarrow> bool" where
  "roundtrip_recovers err elements =
     (case roundtrip err elements of
        Inl error \<Rightarrow> False
      | Inr converted \<Rightarrow>
          \<bar>elem_a converted - elem_a elements\<bar> \<le> 1 / 100
          \<and> \<bar>elem_e converted - elem_e elements\<bar> \<le> 1 / 100
          \<and> \<bar>elem_i converted - elem_i elements\<bar> \<le> 1 / 100
          \<and> angle_close (elem_Omega converted) (elem_Omega elements)
          \<and> (case elem_omega converted of
                NaN \<Rightarrow> False
              | Finite \<omega>' \<Rightarrow>
                  (case elem_omega elements of
                     NaN \<Rightarrow> False
                   | Finite \<omega> \<Rightarrow> angle_close \<omega>' \<omega>))
          \<and> (case elem_nu elements of
                None \<Rightarrow> False
              | Some \<nu> \<Rightarrow>
                  (case elem_nu converted of
                     None \<Rightarrow> False
                   | Some \<nu>' \<Rightarrow> angle_close \<nu>' \<nu>)))"


definition polar_elliptical :: OrbitalElements where
  "polar_elliptical =
     \<lparr>elem_a = 7000000, elem_e = 1 / 10, elem_i = pi / 2, elem_Omega = pi / 4,
      elem_omega = Finite (pi / 3), elem_nu = Some (pi / 4), elem_M = None\<rparr>"

definition polar_at_node :: OrbitalElements where
  "polar_at_node =
     \<lparr>elem_a = 7000000, elem_e = 1 / 10, elem_i = pi / 2, elem_Omega = pi / 4,
      elem_omega = Finite 0, elem_nu = Some 0, elem_M = None\<rparr>"

section \<open>Propagator: \<open>sim/orbit/propagator.ts\<close>\<close>

definition meanAnomalyFromTrue :: "real \<Rightarrow> real \<Rightarrow> real" where
  "meanAnomalyFromTrue \<nu> e =
     (let cos\<nu> = cos \<nu>; sin\<nu> = sin \<nu>;
          cosE = (e + cos\<nu>) / (1 + e * cos\<nu>);
          sinE = (sqrt (1 - e * e) * sin\<nu>) / (1 + e * cos\<nu>);
          E = atan2 sinE cosE;
          M = E - e * sin E
      in normalizeAngle M)"

text \<open>
  \<open>propagateKepler(state, deltaTime)\<close> in exact arithmetic, but for the
  rounding error \<open>err\<close> that \<open>cartesianToElements\<close> takes.
  \<open>cartesianToElements\<close> always sets \<open>\<nu>\<close>, so the non-null assertion
  \<open>elements.\<nu>!\<close> holds; without a \<open>\<nu>\<close> the arithmetic would give NaN. The
  unused \<open>period\<close> is left out.
\<close>

definition propagateKepler :: "real \<Rightarrow> CartesianState \<Rightarrow> real \<Rightarrow> orbit_error + CartesianState" where
  "propagateKepler err state deltaTime =
     (case cartesianToElements err state of
        Inl error \<Rightarrow> Inl error
      | Inr elements \<Rightarrow>
          (case elem_nu elements of
             None \<Rightarrow> Inl NotANumber
           | Some \<nu> \<Rightarrow>
               let n = sqrt (EARTH_MU / (elem_a elements * elem_a elements * elem_a elements));
                   M0 = meanAnomalyFromTrue \<nu> (elem_e elements);
                   deltaM = n * deltaTime;
                   M1 = M0 + deltaM;
                   M1n = normalizeAngle M1;
                   newElements = elements\<lparr>elem_M := Some M1n, elem_nu := None\<rparr>
               in elementsToCartesian newElements))"

text \<open>
  The variant of the specification's remark: \<open>propagateKepler\<close> without the
  statement \<open>M1 = normalizeAngle(M1)\<close>.
\<close>

definition propagateKepler_unnormalized ::
  "real \<Rightarrow> CartesianState \<Rightarrow> real \<Rightarrow> orbit_error + CartesianState" where
  "propagateKepler_unnormalized err state deltaTime =
     (case cartesianToElements err state of
        Inl error \<Rightarrow> Inl error
      | Inr elements \<Rightarrow>
          (case elem_nu elements of
             None \<Rightarrow> Inl NotANumber
           | Some \<nu> \<Rightarrow>
               let n = sqrt (EARTH_MU / (elem_a elements * elem_a elements * elem_a elements));
                   M0 = meanAnomalyFromTrue \<nu> (elem_e elements);
                   deltaM = n * deltaTime;
                   M1 = M0 + deltaM;
                   newElements = elements\<lparr>elem_M := Some M1, elem_nu := None\<rparr>
               in elementsToCartesian newElements))"

section \<open>Maneuver module: \<open>sim/maneuvers/deltaV.ts\<close>\<close>

text \<open>The two \<open>throw new Error\<close> sites of \<open>applyDeltaV\<close>.\<close>

datatype dv_error = NegativeBudget real | ExceedsBudget real real

text \<open>The returned object \<open>{ newState, newDvRemaining }\<close>.\<close>

record DeltaVResult =
  newState :: CartesianState
  newDvRemaining :: real

text \<open>
  \<open>applyDeltaV(state, dvVector, dvRemaining)\<close>. The source never assigns to
  \<open>state\<close> or to one of its arrays: it builds a fresh velocity array and a
  fresh state object that shares \<open>state.position\<close>. The embedding is
  therefore a function of the three arguments.
\<close>

definition applyDeltaV :: "CartesianState \<Rightarrow> vec3 \<Rightarrow> real \<Rightarrow> dv_error + DeltaVResult" where
  "applyDeltaV state dvVector dvRemaining =
     (if dvRemaining < 0 then Inl (NegativeBudget dvRemaining)
      else
        (case dvVector of (dvx, dvy, dvz) \<Rightarrow>
           let dvMagnitude = sqrt (dvx * dvx + dvy * dvy + dvz * dvz) in
           if dvMagnitude > dvRemaining then Inl (ExceedsBudget dvMagnitude dvRemaining)
           else
             (case velocity state of (vx, vy, vz) \<Rightarrow>
                let newVelocity = (vx + dvx, vy + dvy, vz + dvz);
                    newDv = max 0 (dvRemaining - dvMagnitude)
                in Inr \<lparr>newState = \<lparr>position = position state, velocity = newVelocity\<rparr>,
                        newDvRemaining = newDv\<rparr>)))"

section \<open>Simulation clock: \<open>sim/SimClock.ts\<close>\<close>

record SimClockState =
  paused :: bool
  timeScale :: real
  simTime :: real
  seed :: string
  stepDelta :: real

text \<open>The defaults of the constructor, before \<open>...initialState\<close> overrides them.\<close>

definition SimClock_default :: SimClockState where
  "SimClock_default =
     \<lparr>paused = False, timeScale = 1, simTime = 0, seed = ''default'', stepDelta = 1\<rparr>"

text \<open>
  \<open>setTimeScale(scale)\<close>: the time scale is clamped first, and the test for 0
  reads the clamped field \<open>this.state.timeScale\<close>, as the source does.
\<close>

definition setTimeScale :: "real \<Rightarrow> SimClockState \<Rightarrow> SimClockState" where
  "setTimeScale scale st =
     (let st1 = st\<lparr>timeScale := max (1 / 10) (min 100 scale)\<rparr>
      in if timeScale st1 = 0 then st1\<lparr>paused := True\<rparr> else st1)"

text \<open>\<open>update(frameDelta)\<close> returns the simulation delta and the new state.\<close>

definition update :: "real \<Rightarrow> SimClockState \<Rightarrow> real \<times> SimClockState" where
  "update frameDelta st =
     (if paused st \<or> timeScale st = 0 then (0, st)
      else let simDelta = frameDelta * timeScale st
           in (simDelta, st\<lparr>simTime := simTime st + simDelta\<rparr>))"

section \<open>Agents and objectives: \<open>render/Agents.types.ts\<close>, \<open>sim/tasks/types.ts\<close>\<close>

text \<open>
  An agent. The fields \<open>behaviors\<close>, \<open>team\<close>, \<open>dvRemaining\<close>,
  \<open>selected\<close> and \<open>hovered\<close> are read by none of the functions embedded
  here and are left out.
\<close>

record Agent =
  agent_id :: string
  state :: CartesianState

text \<open>
  The three objective interfaces. The \<open>type\<close> tag is the constructor; the
  fields of \<open>BaseObjective\<close> are the fields of the record.
  \<open>string | null\<close> and \<open>number | null\<close> are options.
\<close>

datatype ObjectiveDetail =
    InspectPoint real "real option"
  | RelayNode real real "string option" "real option"
  | HoldFormationZone real real "string list"

record Objective =
  objective_id :: string
  objective_position :: vec3
  points :: real
  completed :: bool
  detail :: ObjectiveDetail

section \<open>Task allocation: \<open>sim/tasks/allocation.ts\<close>\<close>

definition distance :: "vec3 \<Rightarrow> vec3 \<Rightarrow> real" where
  "distance pos1 pos2 =
     (case pos1 of (x1, y1, z1) \<Rightarrow> case pos2 of (x2, y2, z2) \<Rightarrow>
        let dx = x2 - x1; dy = y2 - y1; dz = z2 - z1
        in sqrt (dx * dx + dy * dy + dz * dz))"

text \<open>
  The loop of \<open>findNearestAgent\<close>. The pair \<open>(nearestAgent, nearestDistance)\<close>
  starts as \<open>(null, Infinity)\<close>, which is \<open>None\<close> here.
\<close>

fun findNearestAgent_loop ::
  "Agent list \<Rightarrow> vec3 \<Rightarrow> string set \<Rightarrow> (Agent \<times> real) option \<Rightarrow> (Agent \<times> real) option" where
  "findNearestAgent_loop [] pos excludeAgentIds best = best"
| "findNearestAgent_loop (agent # rest) pos excludeAgentIds best =
     (if agent_id agent \<in> excludeAgentIds then findNearestAgent_loop rest pos excludeAgentIds best
      else
        let dist = distance (position (state agent)) pos in
        (case best of
           None \<Rightarrow> findNearestAgent_loop rest pos excludeAgentIds (Some (agent, dist))
         | Some (nearestAgent, nearestDistance) \<Rightarrow>
             if dist < nearestDistance
             then findNearestAgent_loop rest pos excludeAgentIds (Some (agent, dist))
             else findNearestAgent_loop rest pos excludeAgentIds best))"

definition findNearestAgent :: "Agent list \<Rightarrow> vec3 \<Rightarrow> string set \<Rightarrow> Agent option" where
  "findNearestAgent agents pos excludeAgentIds =
     map_option fst (findNearestAgent_loop agents pos excludeAgentIds None)"

definition findAgentsInRadius :: "Agent list \<Rightarrow> vec3 \<Rightarrow> real \<Rightarrow> string set \<Rightarrow> Agent list" where
  "findAgentsInRadius agents pos rad excludeAgentIds =
     filter (\<lambda>agent. agent_id agent \<notin> excludeAgentIds
                     \<and> distance (position (state agent)) pos \<le> rad) agents"

text \<open>
  The tail of the \<open>RELAY_NODE\<close> case of \<open>allocateTasks\<close>: assign the nearest
  agent that is not yet in \<open>assignedAgentIds\<close>.
\<close>

definition relay_assign_nearest ::
  "Agent list \<Rightarrow> string set \<Rightarrow> Objective \<Rightarrow> real \<Rightarrow> real \<Rightarrow> string option \<Rightarrow> real option
     \<Rightarrow> string set \<times> Objective" where
  "relay_assign_nearest agents assigned obj hold th aid st =
     (case findNearestAgent agents (objective_position obj) assigned of
        Some nearest \<Rightarrow>
          (insert (agent_id nearest) assigned,
           obj\<lparr>detail := RelayNode hold th (Some (agent_id nearest)) st\<rparr>)
      | None \<Rightarrow> (assigned, obj\<lparr>detail := RelayNode hold th aid st\<rparr>))"

text \<open>The loop over \<open>agentsInZone\<close> of the \<open>HOLD_FORMATION_ZONE\<close> case.\<close>

fun zone_add_in_zone :: "Agent list \<Rightarrow> string list \<times> string set \<Rightarrow> string list \<times> string set" where
  "zone_add_in_zone [] acc = acc"
| "zone_add_in_zone (agent # rest) (ids, assigned) =
     zone_add_in_zone rest
       (if agent_id agent \<notin> set ids then ids @ [agent_id agent] else ids,
        insert (agent_id agent) assigned)"

text \<open>
  The loop \<open>for (let i = 0; i < neededAgents; i++)\<close>, given the number of
  iterations that remain; it breaks when no agent is left.
\<close>

fun zone_assign_needed ::
  "Agent list \<Rightarrow> vec3 \<Rightarrow> nat \<Rightarrow> string list \<times> string set \<Rightarrow> string list \<times> string set" where
  "zone_assign_needed agents pos 0 acc = acc"
| "zone_assign_needed agents pos (Suc n) (ids, assigned) =
     (case findNearestAgent agents pos assigned of
        Some nearest \<Rightarrow>
          zone_assign_needed agents pos n
            (ids @ [agent_id nearest], insert (agent_id nearest) assigned)
      | None \<Rightarrow> (ids, assigned))"

text \<open>
  The body of the loop of \<open>allocateTasks\<close> for one objective: the set
  \<open>assignedAgentIds\<close> and the objective before, and both after. The test
  \<open>if (relayObj.assignedAgentId)\<close> is one of truthiness: \<open>null\<close> and the
  empty string both fail it.
\<close>

definition allocate_objective ::
  "Agent list \<Rightarrow> string set \<Rightarrow> Objective \<Rightarrow> string set \<times> Objective" where
  "allocate_objective agents assigned obj =
     (if completed obj then (assigned, obj)
      else
        (case detail obj of
           InspectPoint th vth \<Rightarrow>
             (case findNearestAgent agents (objective_position obj) assigned of
                Some nearest \<Rightarrow> (insert (agent_id nearest) assigned, obj)
              | None \<Rightarrow> (assigned, obj))
         | RelayNode hold th aid st \<Rightarrow>
             (case aid of
                None \<Rightarrow> relay_assign_nearest agents assigned obj hold th aid st
              | Some a \<Rightarrow>
                  if a = [] then relay_assign_nearest agents assigned obj hold th aid st
                  else
                    (case find (\<lambda>x. agent_id x = a) agents of
                       Some assignedAgent \<Rightarrow> (insert a assigned, obj)
                     | None \<Rightarrow> relay_assign_nearest agents assigned obj hold th None st))
         | HoldFormationZone rad req ids \<Rightarrow>
             let ids1 = filter (\<lambda>i. list_ex (\<lambda>a. agent_id a = i) agents) ids;
                 agentsInZone = findAgentsInRadius agents (objective_position obj) rad {};
                 acc2 = zone_add_in_zone agentsInZone (ids1, assigned);
                 neededAgents = req - real (length (fst acc2));
                 acc3 = (if neededAgents > 0
                         then zone_assign_needed agents (objective_position obj)
                                (nat \<lceil>neededAgents\<rceil>) acc2
                         else acc2)
             in (snd acc3, obj\<lparr>detail := HoldFormationZone rad req (fst acc3)\<rparr>)))"

fun allocateTasks_loop :: "Agent list \<Rightarrow> string set \<Rightarrow> Objective list \<Rightarrow> Objective list" where
  "allocateTasks_loop agents assigned [] = []"
| "allocateTasks_loop agents assigned (obj # rest) =
     (case allocate_objective agents assigned obj of
        (assigned', obj') \<Rightarrow> obj' # allocateTasks_loop agents assigned' rest)"

text \<open>
  \<open>allocateTasks(agents, objectives)\<close> mutates the objectives in place; the
  embedding returns the list of objectives after the call. The entries of the
  list are taken to be distinct objects, as the caller builds them.
\<close>

definition allocateTasks :: "Agent list \<Rightarrow> Objective list \<Rightarrow> Objective list" where
  "allocateTasks agents objectives = allocateTasks_loop agents {} objectives"

text \<open>The loop over the agents of the \<open>INSPECT_POINT\<close> case of \<open>updateObjectiveState\<close>.\<close>

fun inspect_loop :: "Agent list \<Rightarrow> vec3 \<Rightarrow> real \<Rightarrow> real option \<Rightarrow> bool" where
  "inspect_loop [] pos th vth = False"
| "inspect_loop (agent # rest) pos th vth =
     (let dist = distance (position (state agent)) pos in
      if dist \<le> th then
        (let vThreshold = (case vth of None \<Rightarrow> 10 | Some v \<Rightarrow> v);
             relativeSpeed = magnitude (velocity (state agent))
         in if relativeSpeed \<le> vThreshold then True else inspect_loop rest pos th vth)
      else inspect_loop rest pos th vth)"

text \<open>
  The body of the loop of \<open>updateObjectiveState\<close> for one objective: the
  objective after the tick and the ids pushed to \<open>newlyCompleted\<close>. Here too
  \<open>!relayObj.assignedAgentId\<close> holds of \<open>null\<close> and of the empty string.
\<close>

definition update_objective :: "Agent list \<Rightarrow> real \<Rightarrow> Objective \<Rightarrow> Objective \<times> string list" where
  "update_objective agents simT obj =
     (if completed obj then (obj, [])
      else
        (case detail obj of
           InspectPoint th vth \<Rightarrow>
             if inspect_loop agents (objective_position obj) th vth
             then (obj\<lparr>completed := True\<rparr>, [objective_id obj])
             else (obj, [])
         | RelayNode hold th aid st \<Rightarrow>
             (case aid of
                None \<Rightarrow> (obj, [])
              | Some a \<Rightarrow>
                  if a = [] then (obj, [])
                  else
                    (case find (\<lambda>x. agent_id x = a) agents of
                       None \<Rightarrow> (obj\<lparr>detail := RelayNode hold th None None\<rparr>, [])
                     | Some assignedAgent \<Rightarrow>
                         let dist = distance (position (state assignedAgent)) (objective_position obj) in
                         if dist \<le> th then
                           (case st of
                              None \<Rightarrow> (obj\<lparr>detail := RelayNode hold th aid (Some simT)\<rparr>, [])
                            | Some t0 \<Rightarrow>
                                let elapsed = simT - t0 in
                                if elapsed \<ge> hold
                                then (obj\<lparr>completed := True\<rparr>, [objective_id obj])
                                else (obj, []))
                         else (obj\<lparr>detail := RelayNode hold th aid None\<rparr>, [])))
         | HoldFormationZone rad req ids \<Rightarrow>
             let agentsInZone = findAgentsInRadius agents (objective_position obj) rad {} in
             if real (length agentsInZone) \<ge> req
             then (obj\<lparr>completed := True\<rparr>, [objective_id obj])
             else (obj, [])))"

text \<open>
  \<open>updateObjectiveState(objectives, agents, simTime)\<close>: the objectives after
  the call and the returned array \<open>newlyCompleted\<close>.
\<close>

fun updateObjectiveState ::
  "Objective list \<Rightarrow> Agent list \<Rightarrow> real \<Rightarrow> Objective list \<times> string list" where
  "updateObjectiveState [] agents simT = ([], [])"
| "updateObjectiveState (obj # rest) agents simT =
     (case update_objective agents simT obj of
        (obj', pushed) \<Rightarrow>
          (case updateObjectiveState rest agents simT of
             (rest', newlyCompleted) \<Rightarrow> (obj' # rest', pushed @ newlyCompleted)))"

text \<open>
  A sequence of calls on one objective list, as the tick loop issues them:
  each call is \<open>allocateTasks(agents, objectives)\<close> or
  \<open>updateObjectiveState(objectives, agents, simTime)\<close>. \<open>run_calls\<close> gives the
  objectives after the last call and the arrays returned by the
  \<open>updateObjectiveState\<close> calls, in order.
\<close>

datatype call = AllocateTasks "Agent list" | UpdateObjectiveState "Agent list" real

fun run_calls :: "call list \<Rightarrow> Objective list \<Rightarrow> Objective list \<times> string list list" where
  "run_calls [] objectives = (objectives, [])"
| "run_calls (AllocateTasks agents # rest) objectives =
     run_calls rest (allocateTasks agents objectives)"
| "run_calls (UpdateObjectiveState agents simT # rest) objectives =
     (case updateObjectiveState objectives agents simT of
        (objectives', newlyCompleted) \<Rightarrow>
          (case run_calls rest objectives' of
             (final, results) \<Rightarrow> (final, newlyCompleted # results)))"

text \<open>
  A run of \<open>updateObjectiveState\<close> calls alone, one for each tick, a tick being
  the agents and the simulation time of the call; and whether the agent with a
  given id is in the agent list of a tick and within a distance of an objective.
\<close>

definition update_calls :: "(Agent list \<times> real) list \<Rightarrow> call list" where
  "update_calls ticks = map (\<lambda>(agents, t). UpdateObjectiveState agents t) ticks"

definition agent_within :: "Objective \<Rightarrow> string \<Rightarrow> real \<Rightarrow> Agent list \<Rightarrow> bool" where
  "agent_within obj a th agents =
     (case find (\<lambda>x. agent_id x = a) agents of
        None \<Rightarrow> False
      | Some ag \<Rightarrow> distance (position (state ag)) (objective_position obj) \<le> th)"

text \<open>
  The relay scenario of the specification: a relay node with a threshold of
  1000 m and a hold duration of 30 s, assigned to one agent, which is either
  500 m from the node (inside the threshold) or 2000 m from it (outside).
\<close>

definition relay_demo :: Objective where
  "relay_demo =
     \<lparr>objective_id = ''relay-1'', objective_position = (7000000, 0, 0), points = 100,
      completed = False, detail = RelayNode 30 1000 (Some ''agent-0'') None\<rparr>"

definition agent_inside :: Agent where
  "agent_inside =
     \<lparr>agent_id = ''agent-0'', state = \<lparr>position = (7000500, 0, 0), velocity = (0, 7500, 0)\<rparr>\<rparr>"

definition agent_outside :: Agent where
  "agent_outside =
     \<lparr>agent_id = ''agent-0'', state = \<lparr>position = (7002000, 0, 0), velocity = (0, 7500, 0)\<rparr>\<rparr>"

text \<open>The agent enters at t = 10 s and stays.\<close>

definition ticks_remaining :: "call list" where
  "ticks_remaining =
     [UpdateObjectiveState [agent_outside] 0, UpdateObjectiveState [agent_inside] 10,
      UpdateObjectiveState [agent_inside] 20, UpdateObjectiveState [agent_inside] 30,
      UpdateObjectiveState [agent_inside] 39, UpdateObjectiveState [agent_inside] 40]"

text \<open>The agent enters at t = 10 s, is outside at t = 25 s and enters again at t = 30 s.\<close>

definition ticks_exit_reenter :: "call list" where
  "ticks_exit_reenter =
     [UpdateObjectiveState [agent_outside] 0, UpdateObjectiveState [agent_inside] 10,
      UpdateObjectiveState [agent_inside] 20, UpdateObjectiveState [agent_outside] 25,
      UpdateObjectiveState [agent_inside] 30, UpdateObjectiveState [agent_inside] 40,
      UpdateObjectiveState [agent_inside] 50, UpdateObjectiveState [agent_inside] 59,
      UpdateObjectiveState [agent_inside] 60]"

text \<open>
  A second agent, 2000 m from the node and later 300 m from it, and a run in
  which the node passes to it. The first agent is inside the threshold from
  t = 10 s on. At t = 40 s it is not among the agents given to
  \<open>allocateTasks\<close> (the tick loop gives \<open>allocateTasks\<close> the agents that the
  player has not selected, and \<open>updateObjectiveState\<close> all of them), and the
  second agent is inside the threshold for the first time.
\<close>

definition second_outside :: Agent where
  "second_outside =
     \<lparr>agent_id = ''agent-1'', state = \<lparr>position = (7002000, 0, 0), velocity = (0, 7500, 0)\<rparr>\<rparr>"

definition second_inside :: Agent where
  "second_inside =
     \<lparr>agent_id = ''agent-1'', state = \<lparr>position = (7000300, 0, 0), velocity = (0, 7500, 0)\<rparr>\<rparr>"

definition ticks_reassigned :: "call list" where
  "ticks_reassigned =
     [UpdateObjectiveState [agent_inside, second_outside] 10,
      UpdateObjectiveState [agent_inside, second_outside] 25,
      AllocateTasks [second_inside],
      UpdateObjectiveState [agent_inside, second_inside] 40]"

section \<open>Objective steering: \<open>sim/tasks/steering.ts\<close>\<close>

record ObjectiveSteeringParams =
  objectiveWeight :: real

text \<open>\<open>sim/swarm/types.ts\<close>: one velocity delta per agent.\<close>

record VelocityAdjustment =
  delta :: vec3

text \<open>
  The loop of \<open>computeObjectiveSteering\<close> that picks \<open>targetObjective\<close>,
  starting from the current target.
\<close>

fun steering_target :: "Agent \<Rightarrow> Objective list \<Rightarrow> Objective option \<Rightarrow> Objective option" where
  "steering_target agent [] targetObjective = targetObjective"
| "steering_target agent (obj # rest) targetObjective =
     (if completed obj then steering_target agent rest targetObjective
      else
        (case detail obj of
           InspectPoint th vth \<Rightarrow>
             let dist = distance (position (state agent)) (objective_position obj) in
             (case targetObjective of
                None \<Rightarrow> steering_target agent rest (Some obj)
              | Some t \<Rightarrow>
                  let currentDist = distance (position (state agent)) (objective_position t) in
                  if dist < currentDist then steering_target agent rest (Some obj)
                  else steering_target agent rest targetObjective)
         | RelayNode hold th aid st \<Rightarrow>
             if aid = Some (agent_id agent) then steering_target agent rest (Some obj)
             else steering_target agent rest targetObjective
         | HoldFormationZone rad req ids \<Rightarrow>
             if agent_id agent \<in> set ids then steering_target agent rest (Some obj)
             else steering_target agent rest targetObjective))"

definition computeObjectiveSteering ::
  "Agent \<Rightarrow> Objective list \<Rightarrow> ObjectiveSteeringParams \<Rightarrow> VelocityAdjustment" where
  "computeObjectiveSteering agent objectives params =
     (case steering_target agent objectives None of
        None \<Rightarrow> \<lparr>delta = (0, 0, 0)\<rparr>
      | Some targetObjective \<Rightarrow>
          (case position (state agent) of (ax, ay, az) \<Rightarrow>
           case objective_position targetObjective of (ox, oy, oz) \<Rightarrow>
             let dx = ox - ax; dy = oy - ay; dz = oz - az;
                 dist = sqrt (dx * dx + dy * dy + dz * dz)
             in if dist < 1 / 1000000 then \<lparr>delta = (0, 0, 0)\<rparr>
                else
                  let dirX = dx / dist; dirY = dy / dist; dirZ = dz / dist;
                      weight = objectiveWeight params
                  in \<lparr>delta = (dirX * weight, dirY * weight, dirZ * weight)\<rparr>))"

text \<open>\<open>DEFAULT_OBJECTIVE_STEERING_PARAMS\<close>.\<close>

definition DEFAULT_OBJECTIVE_STEERING_PARAMS :: ObjectiveSteeringParams where
  "DEFAULT_OBJECTIVE_STEERING_PARAMS = \<lparr>objectiveWeight = 1 / 2\<rparr>"

text \<open>
  A mixed objective list seen from an agent at the origin: an inspect point
  10 m away on the x-axis, a relay node assigned to the agent 500 m away on the
  y-axis, and a second inspect point 100 m away on the z-axis.
\<close>

definition steering_agent :: Agent where
  "steering_agent =
     \<lparr>agent_id = ''agent-0'', state = \<lparr>position = (0, 0, 0), velocity = (0, 0, 0)\<rparr>\<rparr>"

definition inspect_near :: Objective where
  "inspect_near =
     \<lparr>objective_id = ''inspect-1'', objective_position = (10, 0, 0), points = 10,
      completed = False, detail = InspectPoint 1 None\<rparr>"

definition relay_far :: Objective where
  "relay_far =
     \<lparr>objective_id = ''relay-1'', objective_position = (0, 500, 0), points = 10,
      completed = False, detail = RelayNode 30 1 (Some ''agent-0'') None\<rparr>"

definition inspect_mid :: Objective where
  "inspect_mid =
     \<lparr>objective_id = ''inspect-2'', objective_position = (0, 0, 100), points = 10,
      completed = False, detail = InspectPoint 1 None\<rparr>"

section \<open>Swarm system: \<open>sim/swarm/types.ts\<close>, \<open>sim/swarm/localFrame.ts\<close>\<close>

record BehaviorParams =
  cohesionWeight :: real
  separationWeight :: real
  alignmentWeight :: real
  neighborRadius :: real
  minSeparation :: real
  formationWeight :: real

definition DEFAULT_BEHAVIOR_PARAMS :: BehaviorParams where
  "DEFAULT_BEHAVIOR_PARAMS =
     \<lparr>cohesionWeight = 1 / 10, separationWeight = 1, alignmentWeight = 1 / 2,
      neighborRadius = 50000, minSeparation = 1000, formationWeight = 3 / 10\<rparr>"

definition xcomp :: "vec3 \<Rightarrow> real" where "xcomp v = fst v"
definition ycomp :: "vec3 \<Rightarrow> real" where "ycomp v = fst (snd v)"
definition zcomp :: "vec3 \<Rightarrow> real" where "zcomp v = snd (snd v)"

text \<open>
  The three statements \<open>a[0] += x; a[1] += y; a[2] += z\<close>, and the same with
  \<open>-=\<close>, as one update of the triple.
\<close>

definition vadd :: "vec3 \<Rightarrow> vec3 \<Rightarrow> vec3" where
  "vadd a b = (xcomp a + xcomp b, ycomp a + ycomp b, zcomp a + zcomp b)"

definition vsub :: "vec3 \<Rightarrow> vec3 \<Rightarrow> vec3" where
  "vsub a b = (xcomp a - xcomp b, ycomp a - ycomp b, zcomp a - zcomp b)"

text \<open>
  \<open>adjustments[i]!.delta\<close> where \<open>adjustments[i]\<close> is \<open>undefined\<close> throws a
  \<open>TypeError\<close>; the non-null assertion \<open>!\<close> is erased by the compiler.
\<close>

datatype js_error = TypeError

definition add_to_delta ::
  "VelocityAdjustment list \<Rightarrow> nat \<Rightarrow> vec3 \<Rightarrow> js_error + VelocityAdjustment list" where
  "add_to_delta adjustments i v =
     (if i < length adjustments
      then Inr (adjustments[i := (adjustments ! i)\<lparr>delta := vadd (delta (adjustments ! i)) v\<rparr>])
      else Inl TypeError)"

definition sub_from_delta ::
  "VelocityAdjustment list \<Rightarrow> nat \<Rightarrow> vec3 \<Rightarrow> js_error + VelocityAdjustment list" where
  "sub_from_delta adjustments i v =
     (if i < length adjustments
      then Inr (adjustments[i := (adjustments ! i)\<lparr>delta := vsub (delta (adjustments ! i)) v\<rparr>])
      else Inl TypeError)"

text \<open>
  The body of the inner loop of \<open>enforceMinimumSeparation\<close> for the pair of
  indices \<open>(i, j)\<close>, both below \<open>agents.length\<close>. An exception ends the call;
  the adjustments written before it are not returned.
\<close>

definition separation_pair ::
  "BehaviorParams \<Rightarrow> Agent list \<Rightarrow> nat \<Rightarrow> nat \<Rightarrow> VelocityAdjustment list
     \<Rightarrow> js_error + VelocityAdjustment list" where
  "separation_pair params agents i j adjustments =
     (let minSepSq = minSeparation params * minSeparation params in
      case position (state (agents ! i)) of (px, py, pz) \<Rightarrow>
      case position (state (agents ! j)) of (ox, oy, oz) \<Rightarrow>
        let dx = px - ox; dy = py - oy; dz = pz - oz;
            distSq = dx * dx + dy * dy + dz * dz
        in if distSq < minSepSq \<and> distSq > 1 / 1000000000000 then
             let dist = sqrt distSq;
                 repulsionStrength = (minSeparation params - dist) / minSeparation params;
                 repulsionWeight = separationWeight params * repulsionStrength * 10;
                 dirX = dx / dist; dirY = dy / dist; dirZ = dz / dist
             in (case add_to_delta adjustments i
                        (dirX * repulsionWeight, dirY * repulsionWeight, dirZ * repulsionWeight) of
                   Inl e \<Rightarrow> Inl e
                 | Inr adjustments1 \<Rightarrow>
                     sub_from_delta adjustments1 j
                       (dirX * repulsionWeight, dirY * repulsionWeight, dirZ * repulsionWeight))
           else Inr adjustments)"

text \<open>The loop \<open>for (let j = i + 1; j < agents.length; j++)\<close>, from \<open>j\<close> on.\<close>

function separation_inner ::
  "BehaviorParams \<Rightarrow> Agent list \<Rightarrow> nat \<Rightarrow> nat \<Rightarrow> VelocityAdjustment list
     \<Rightarrow> js_error + VelocityAdjustment list" where
  "separation_inner params agents i j adjustments =
     (if j < length agents then
        (case separation_pair params agents i j adjustments of
           Inl e \<Rightarrow> Inl e
         | Inr adjustments1 \<Rightarrow> separation_inner params agents i (j + 1) adjustments1)
      else Inr adjustments)"
  by pat_completeness auto
termination
  by (relation "measure (\<lambda>(params, agents, i, j, adjustments). length agents - j)") auto

text \<open>The loop \<open>for (let i = 0; i < agents.length; i++)\<close>, from \<open>i\<close> on.\<close>

function separation_outer ::
  "BehaviorParams \<Rightarrow> Agent list \<Rightarrow> nat \<Rightarrow> VelocityAdjustment list
     \<Rightarrow> js_error + VelocityAdjustment list" where
  "separation_outer params agents i adjustments =
     (if i < length agents then
        (case separation_inner params agents i (i + 1) adjustments of
           Inl e \<Rightarrow> Inl e
         | Inr adjustments1 \<Rightarrow> separation_outer params agents (i + 1) adjustments1)
      else Inr adjustments)"
  by pat_completeness auto
termination
  by (relation "measure (\<lambda>(params, agents, i, adjustments). length agents - i)") auto

text \<open>
  \<open>enforceMinimumSeparation(agents, adjustments, params)\<close> mutates
  \<open>adjustments\<close> in place; the embedding returns the adjustments after the
  call. Each \<open>delta\<close> array belongs to one adjustment, as
  \<open>computeSwarmForces\<close> builds them.
\<close>

definition enforceMinimumSeparation ::
  "Agent list \<Rightarrow> VelocityAdjustment list \<Rightarrow> BehaviorParams
     \<Rightarrow> js_error + VelocityAdjustment list" where
  "enforceMinimumSeparation agents adjustments params =
     separation_outer params agents 0 adjustments"

text \<open>
  The specification's wording of the adjustment that an agent at \<open>p\<close>
  receives on account of another agent at \<open>q\<close>: nothing unless the two are
  closer than \<open>minSeparation\<close> and further apart than the numerical floor of
  \<open>1e-6\<close> m; otherwise the unit vector from \<open>q\<close> to \<open>p\<close>, scaled by the
  separation weight times \<open>(minSeparation - distance) / minSeparation\<close> times
  the safety multiplier 10.
\<close>

definition spec_pair_repulsion :: "BehaviorParams \<Rightarrow> vec3 \<Rightarrow> vec3 \<Rightarrow> vec3" where
  "spec_pair_repulsion params p q =
     (let d = distance q p in
      if d < minSeparation params \<and> d > 1 / 1000000 then
        (let w = separationWeight params * ((minSeparation params - d) / minSeparation params) * 10
         in ((xcomp p - xcomp q) / d * w, (ycomp p - ycomp q) / d * w, (zcomp p - zcomp q) / d * w))
      else (0, 0, 0))"

text \<open>
  The adjustment that the agent at index \<open>i\<close> receives on account of the
  agent at index \<open>j\<close>, in the specification's wording.
\<close>

definition repulsion_between :: "BehaviorParams \<Rightarrow> Agent list \<Rightarrow> nat \<Rightarrow> nat \<Rightarrow> vec3" where
  "repulsion_between params agents i j =
     spec_pair_repulsion params (position (state (agents ! i))) (position (state (agents ! j)))"

text \<open>The three coordinates of a triple.\<close>

definition is_component :: "(vec3 \<Rightarrow> real) \<Rightarrow> bool" where
  "is_component c = (c = xcomp \<or> c = ycomp \<or> c = zcomp)"

text \<open>Two agents 500 m apart, and the zero adjustment.\<close>

definition agents_500m_apart :: "Agent list" where
  "agents_500m_apart =
     [\<lparr>agent_id = ''agent-0'', state = \<lparr>position = (7000000, 0, 0), velocity = (0, 7500, 0)\<rparr>\<rparr>,
      \<lparr>agent_id = ''agent-1'', state = \<lparr>position = (7000500, 0, 0), velocity = (0, 7500, 0)\<rparr>\<rparr>]"

definition zero_adjustment :: VelocityAdjustment where
  "zero_adjustment = \<lparr>delta = (0, 0, 0)\<rparr>"

section \<open>Properties of the maneuver module\<close>

text \<open>
  C4. \<open>applyDeltaV\<close> fails when the budget is negative, fails when the
  magnitude of the requested delta-v exceeds the budget, and otherwise returns
  the state with the same position, the velocity increased componentwise by
  the delta-v, and the budget \<open>max(0, dvRemaining - |dv|)\<close>. The function is
  pure: a failing call returns nothing but the error and leaves its argument as
  it was.
\<close>

theorem applyDeltaV_spec:
  "(dvRemaining < 0 \<longrightarrow> applyDeltaV s dv dvRemaining = Inl (NegativeBudget dvRemaining))
   \<and> (0 \<le> dvRemaining \<and> magnitude dv > dvRemaining \<longrightarrow>
        applyDeltaV s dv dvRemaining = Inl (ExceedsBudget (magnitude dv) dvRemaining))
   \<and> (0 \<le> dvRemaining \<and> magnitude dv \<le> dvRemaining \<longrightarrow>
        (\<exists>r. applyDeltaV s dv dvRemaining = Inr r
           \<and> position (newState r) = position s
           \<and> fst (velocity (newState r)) = fst (velocity s) + fst dv
           \<and> fst (snd (velocity (newState r))) = fst (snd (velocity s)) + fst (snd dv)
           \<and> snd (snd (velocity (newState r))) = snd (snd (velocity s)) + snd (snd dv)
           \<and> newDvRemaining r = max 0 (dvRemaining - magnitude dv)))"
  by (cases dv; cases "velocity s")
     (simp add: applyDeltaV_def magnitude_def Let_def not_less)

theorem applyDeltaV_spec_witness:
  "applyDeltaV \<lparr>position = (7000000, 0, 0), velocity = (0, 7500, 0)\<rparr> (150, 0, 0) (- 1)
     = Inl (NegativeBudget (- 1))
   \<and> applyDeltaV \<lparr>position = (7000000, 0, 0), velocity = (0, 7500, 0)\<rparr> (150, 0, 0) 100
     = Inl (ExceedsBudget 150 100)
   \<and> (\<exists>r. applyDeltaV \<lparr>position = (7000000, 0, 0), velocity = (0, 7500, 0)\<rparr> (150, 0, 0) 200 = Inr r
        \<and> position (newState r) = (7000000, 0, 0)
        \<and> velocity (newState r) = (150, 7500, 0)
        \<and> newDvRemaining r = 50)"
proof -
  let ?s0 = "\<lparr>position = (7000000, 0, 0), velocity = (0, 7500, 0)\<rparr>"
  have m: "magnitude (150, 0, 0) = 150"
    using real_sqrt_abs2 [of 150] by (simp add: magnitude_def)
  have a: "applyDeltaV ?s0 (150, 0, 0) (- 1) = Inl (NegativeBudget (- 1))"
    using applyDeltaV_spec [of "- 1" ?s0 "(150, 0, 0)"] by simp
  have b: "applyDeltaV ?s0 (150, 0, 0) 100 = Inl (ExceedsBudget 150 100)"
    using applyDeltaV_spec [of 100 ?s0 "(150, 0, 0)"] m by simp
  have c: "\<exists>r. applyDeltaV ?s0 (150, 0, 0) 200 = Inr r
        \<and> position (newState r) = (7000000, 0, 0)
        \<and> velocity (newState r) = (150, 7500, 0)
        \<and> newDvRemaining r = 50"
    using applyDeltaV_spec [of 200 ?s0 "(150, 0, 0)"] m by (auto simp: prod_eq_iff)
  from a b c show ?thesis by blast
qed

text \<open>
  C9. With a non-negative budget the zero delta-v always succeeds and changes
  nothing: the returned state is the input state and the returned budget is
  the input budget.
\<close>

theorem applyDeltaV_zero_identity:
  "0 \<le> dvRemaining \<Longrightarrow>
     applyDeltaV s (0, 0, 0) dvRemaining = Inr \<lparr>newState = s, newDvRemaining = dvRemaining\<rparr>"
  by (cases "velocity s") (simp add: applyDeltaV_def Let_def)

theorem applyDeltaV_zero_identity_witness:
  "(0::real) \<le> 100
   \<and> applyDeltaV \<lparr>position = (7000000, 0, 0), velocity = (0, 7500, 0)\<rparr> (0, 0, 0) 100
       = Inr \<lparr>newState = \<lparr>position = (7000000, 0, 0), velocity = (0, 7500, 0)\<rparr>,
              newDvRemaining = 100\<rparr>"
proof -
  have h: "(0::real) \<le> 100" by simp
  show ?thesis
    using h applyDeltaV_zero_identity [OF h, of "\<lparr>position = (7000000, 0, 0), velocity = (0, 7500, 0)\<rparr>"]
    by simp
qed

section \<open>Properties of task allocation\<close>

lemma allocate_objective_completed:
  "completed obj \<Longrightarrow> allocate_objective agents assigned obj = (assigned, obj)"
  by (simp add: allocate_objective_def)

lemma relay_assign_nearest_frame:
  "completed (snd (relay_assign_nearest agents assigned obj hold th aid st)) = completed obj
   \<and> objective_id (snd (relay_assign_nearest agents assigned obj hold th aid st)) = objective_id obj"
  by (simp add: relay_assign_nearest_def split: option.splits)

lemma allocate_objective_frame:
  "completed (snd (allocate_objective agents assigned obj)) = completed obj
   \<and> objective_id (snd (allocate_objective agents assigned obj)) = objective_id obj"
  by (simp add: allocate_objective_def relay_assign_nearest_frame Let_def
           split: ObjectiveDetail.splits option.splits)

lemma allocateTasks_loop_length:
  "length (allocateTasks_loop agents assigned objs) = length objs"
  by (induction objs arbitrary: assigned) (auto split: prod.splits)

lemma allocateTasks_loop_completed_nth:
  "k < length objs \<Longrightarrow> completed (objs ! k) \<Longrightarrow>
     allocateTasks_loop agents assigned objs ! k = objs ! k"
proof (induction objs arbitrary: assigned k)
  case Nil
  then show ?case by simp
next
  case (Cons obj rest)
  show ?case
  proof (cases k)
    case 0
    with Cons.prems show ?thesis
      by (simp add: allocate_objective_completed)
  next
    case (Suc j)
    with Cons show ?thesis
      by (simp split: prod.splits)
  qed
qed

lemma allocateTasks_loop_frame_nth:
  "k < length objs \<Longrightarrow>
     completed (allocateTasks_loop agents assigned objs ! k) = completed (objs ! k)
     \<and> objective_id (allocateTasks_loop agents assigned objs ! k) = objective_id (objs ! k)"
proof (induction objs arbitrary: assigned k)
  case Nil
  then show ?case by simp
next
  case (Cons obj rest)
  show ?case
  proof (cases k)
    case 0
    show ?thesis
      using allocate_objective_frame [of agents assigned obj] 0
      by (auto split: prod.splits)
  next
    case (Suc j)
    with Cons show ?thesis
      by (simp split: prod.splits)
  qed
qed

text \<open>
  C10. \<open>allocateTasks\<close> leaves every objective whose \<open>completed\<close> flag is
  set as it was: the objective at each such position of the list is the same
  value after the call, whatever the agents and the other objectives are.
\<close>

theorem allocateTasks_completed_unchanged:
  "k < length objectives \<Longrightarrow> completed (objectives ! k) \<Longrightarrow>
     allocateTasks agents objectives ! k = objectives ! k"
  by (simp add: allocateTasks_def allocateTasks_loop_completed_nth)

theorem allocateTasks_completed_unchanged_witness:
  "(0::nat) < length [relay_demo\<lparr>completed := True\<rparr>, relay_demo]
   \<and> completed ([relay_demo\<lparr>completed := True\<rparr>, relay_demo] ! 0)
   \<and> allocateTasks [agent_inside] [relay_demo\<lparr>completed := True\<rparr>, relay_demo] ! 0
        = relay_demo\<lparr>completed := True\<rparr>"
proof -
  have h1: "(0::nat) < length [relay_demo\<lparr>completed := True\<rparr>, relay_demo]" by simp
  have h2: "completed ([relay_demo\<lparr>completed := True\<rparr>, relay_demo] ! 0)" by simp
  show ?thesis
    using h1 h2 allocateTasks_completed_unchanged [OF h1 h2, of "[agent_inside]"] by simp
qed

section \<open>Properties of objective completion\<close>

lemma update_objective_completed:
  "completed obj \<Longrightarrow> update_objective agents t obj = (obj, [])"
  by (simp add: update_objective_def)

lemma update_objective_frame:
  "objective_id (fst (update_objective agents t obj)) = objective_id obj
   \<and> (completed obj \<longrightarrow> completed (fst (update_objective agents t obj)))
   \<and> snd (update_objective agents t obj)
       = (if \<not> completed obj \<and> completed (fst (update_objective agents t obj))
          then [objective_id obj] else [])"
  by (simp add: update_objective_def Let_def split: ObjectiveDetail.splits option.splits)

lemma updateObjectiveState_length:
  "length (fst (updateObjectiveState objs agents t)) = length objs"
  by (induction objs) (auto split: prod.splits)

lemma updateObjectiveState_nth:
  "k < length objs \<Longrightarrow>
     fst (updateObjectiveState objs agents t) ! k = fst (update_objective agents t (objs ! k))"
proof (induction objs arbitrary: k)
  case Nil
  then show ?case by simp
next
  case (Cons obj rest)
  then show ?case
    by (cases k) (auto split: prod.splits)
qed

lemma updateObjectiveState_ids:
  "map objective_id (fst (updateObjectiveState objs agents t)) = map objective_id objs"
proof (induction objs)
  case Nil
  then show ?case by simp
next
  case (Cons obj rest)
  then show ?case
    using update_objective_frame [of agents t obj]
    by (auto split: prod.splits)
qed

lemma updateObjectiveState_out_subset:
  "set (snd (updateObjectiveState objs agents t)) \<subseteq> objective_id ` set objs"
proof (induction objs)
  case Nil
  then show ?case by simp
next
  case (Cons obj rest)
  then show ?case
    using update_objective_frame [of agents t obj]
    by (auto split: prod.splits if_splits)
qed

lemma updateObjectiveState_count:
  "distinct (map objective_id objs) \<Longrightarrow> k < length objs \<Longrightarrow>
     count_list (snd (updateObjectiveState objs agents t)) (objective_id (objs ! k))
       = (if \<not> completed (objs ! k) \<and> completed (fst (updateObjectiveState objs agents t) ! k)
          then 1 else 0)"
proof (induction objs arbitrary: k)
  case Nil
  then show ?case by simp
next
  case (Cons obj rest)
  obtain obj' pushed where u: "update_objective agents t obj = (obj', pushed)"
    by (cases "update_objective agents t obj")
  obtain rest' out where r: "updateObjectiveState rest agents t = (rest', out)"
    by (cases "updateObjectiveState rest agents t")
  have fr: "pushed = (if \<not> completed obj \<and> completed obj' then [objective_id obj] else [])"
    using update_objective_frame [of agents t obj] u by simp
  have sub: "set out \<subseteq> objective_id ` set rest"
    using updateObjectiveState_out_subset [of rest agents t] r by simp
  show ?case
  proof (cases k)
    case 0
    have "objective_id obj \<notin> set out"
      using sub Cons.prems(1) by auto
    then have "count_list out (objective_id obj) = 0"
      by (simp add: count_list_0_iff)
    then show ?thesis
      using 0 u r fr by simp
  next
    case (Suc j)
    have j: "j < length rest" using Suc Cons.prems(2) by simp
    have mem: "rest ! j \<in> set rest" using j by simp
    have nin: "objective_id obj \<notin> objective_id ` set rest"
      using Cons.prems(1) by simp
    have ne: "objective_id (rest ! j) \<noteq> objective_id obj"
      using mem nin by (metis imageI)
    have "count_list out (objective_id (rest ! j))
            = (if \<not> completed (rest ! j) \<and> completed (rest' ! j) then 1 else 0)"
      using Cons.IH [of j] Cons.prems(1) j r by simp
    then show ?thesis
      using Suc u r fr ne by simp
  qed
qed

lemma allocateTasks_length: "length (allocateTasks agents objs) = length objs"
  by (simp add: allocateTasks_def allocateTasks_loop_length)

lemma allocateTasks_ids: "map objective_id (allocateTasks agents objs) = map objective_id objs"
  by (rule nth_equalityI)
     (simp_all add: allocateTasks_def allocateTasks_loop_length allocateTasks_loop_frame_nth)

lemma allocateTasks_completed_nth:
  "k < length objs \<Longrightarrow> completed (allocateTasks agents objs ! k) = completed (objs ! k)"
  by (simp add: allocateTasks_def allocateTasks_loop_frame_nth)

lemma updateObjectiveState_mono_nth:
  "k < length objs \<Longrightarrow> completed (objs ! k) \<Longrightarrow>
     completed (fst (updateObjectiveState objs agents t) ! k)"
  by (simp add: updateObjectiveState_nth update_objective_completed)

lemma ids_nth:
  "map objective_id xs = map objective_id ys \<Longrightarrow> k < length ys \<Longrightarrow>
     objective_id (xs ! k) = objective_id (ys ! k)"
  by (metis length_map nth_map)

lemma run_calls_update:
  "fst (run_calls (UpdateObjectiveState agents t # cs) objs)
     = fst (run_calls cs (fst (updateObjectiveState objs agents t)))"
  "snd (run_calls (UpdateObjectiveState agents t # cs) objs)
     = snd (updateObjectiveState objs agents t)
         # snd (run_calls cs (fst (updateObjectiveState objs agents t)))"
  by (simp_all split: prod.splits)

lemma run_calls_append:
  "fst (run_calls (cs1 @ cs2) objs) = fst (run_calls cs2 (fst (run_calls cs1 objs)))"
proof (induction cs1 arbitrary: objs)
  case Nil
  then show ?case by simp
next
  case (Cons c cs)
  then show ?case
    by (cases c) (simp_all add: run_calls_update del: run_calls.simps(3))
qed

lemma run_calls_shape:
  "length (fst (run_calls cs objs)) = length objs
   \<and> map objective_id (fst (run_calls cs objs)) = map objective_id objs"
proof (induction cs arbitrary: objs)
  case Nil
  then show ?case by simp
next
  case (Cons c cs)
  show ?case
  proof (cases c)
    case (AllocateTasks agents)
    then show ?thesis
      using Cons [of "allocateTasks agents objs"]
      by (simp add: allocateTasks_length allocateTasks_ids)
  next
    case (UpdateObjectiveState agents t)
    then show ?thesis
      using Cons [of "fst (updateObjectiveState objs agents t)"]
            updateObjectiveState_length [of objs agents t]
            updateObjectiveState_ids [of objs agents t]
      by (auto split: prod.splits)
  qed
qed

lemma run_calls_mono:
  "k < length objs \<Longrightarrow> completed (objs ! k) \<Longrightarrow> completed (fst (run_calls cs objs) ! k)"
proof (induction cs arbitrary: objs)
  case Nil
  then show ?case by simp
next
  case (Cons c cs)
  show ?case
  proof (cases c)
    case (AllocateTasks agents)
    then show ?thesis
      using Cons.IH [of "allocateTasks agents objs"] Cons.prems
      by (simp add: allocateTasks_length allocateTasks_completed_nth)
  next
    case (UpdateObjectiveState agents t)
    then show ?thesis
      using Cons.IH [of "fst (updateObjectiveState objs agents t)"] Cons.prems
            updateObjectiveState_length [of objs agents t]
            updateObjectiveState_mono_nth [of k objs agents t]
      by (auto split: prod.splits)
  qed
qed

lemma run_calls_count:
  "distinct (map objective_id objs) \<Longrightarrow> k < length objs \<Longrightarrow>
     count_list (concat (snd (run_calls cs objs))) (objective_id (objs ! k))
       = (if \<not> completed (objs ! k) \<and> completed (fst (run_calls cs objs) ! k) then 1 else 0)
     \<and> length (filter (\<lambda>out. objective_id (objs ! k) \<in> set out) (snd (run_calls cs objs)))
       = (if \<not> completed (objs ! k) \<and> completed (fst (run_calls cs objs) ! k) then 1 else 0)"
proof (induction cs arbitrary: objs)
  case Nil
  then show ?case by simp
next
  case (Cons c cs)
  show ?case
  proof (cases c)
    case (AllocateTasks agents)
    let ?objs' = "allocateTasks agents objs"
    have d: "distinct (map objective_id ?objs')" using Cons.prems(1) by (simp add: allocateTasks_ids)
    have l: "k < length ?objs'" using Cons.prems(2) by (simp add: allocateTasks_length)
    have i: "objective_id (?objs' ! k) = objective_id (objs ! k)"
      using ids_nth [OF allocateTasks_ids Cons.prems(2)] .
    have c: "completed (?objs' ! k) = completed (objs ! k)"
      using allocateTasks_completed_nth [OF Cons.prems(2)] .
    show ?thesis
      using Cons.IH [OF d l] AllocateTasks i c by simp
  next
    case (UpdateObjectiveState agents t)
    obtain objs' out where u: "updateObjectiveState objs agents t = (objs', out)"
      by (cases "updateObjectiveState objs agents t")
    obtain final results where r: "run_calls cs objs' = (final, results)"
      by (cases "run_calls cs objs'")
    have d: "distinct (map objective_id objs')"
      using Cons.prems(1) updateObjectiveState_ids [of objs agents t] u by simp
    have l: "k < length objs'"
      using Cons.prems(2) updateObjectiveState_length [of objs agents t] u by simp
    have i: "objective_id (objs' ! k) = objective_id (objs ! k)"
      using ids_nth [OF updateObjectiveState_ids Cons.prems(2), of agents t] u by simp
    have cnt: "count_list out (objective_id (objs ! k))
                 = (if \<not> completed (objs ! k) \<and> completed (objs' ! k) then 1 else 0)"
      using updateObjectiveState_count [OF Cons.prems, of agents t] u by simp
    have mem: "objective_id (objs ! k) \<in> set out \<longleftrightarrow> \<not> completed (objs ! k) \<and> completed (objs' ! k)"
      using cnt count_list_0_iff [of out "objective_id (objs ! k)"] by (auto split: if_splits)
    have m1: "completed (objs ! k) \<Longrightarrow> completed (objs' ! k)"
      using updateObjectiveState_mono_nth [OF Cons.prems(2), of agents t] u by simp
    have m2: "completed (objs' ! k) \<Longrightarrow> completed (final ! k)"
      using run_calls_mono [OF l, of cs] r by simp
    show ?thesis
      using Cons.IH [OF d l] UpdateObjectiveState u r i cnt mem m1 m2 by auto
  qed
qed

lemma distance_along_x: "distance (x1, y, z) (x2, y, z) = \<bar>x2 - x1\<bar>"
  by (simp add: distance_def)

lemma relay_step:
  assumes "\<not> completed obj" and "detail obj = RelayNode hold th (Some a) st" and "a \<noteq> []"
    and "find (\<lambda>x. agent_id x = a) agents = Some ag"
  shows "fst (update_objective agents t obj)
           = (if distance (position (state ag)) (objective_position obj) \<le> th
              then (case st of
                      None \<Rightarrow> obj\<lparr>detail := RelayNode hold th (Some a) (Some t)\<rparr>
                    | Some t0 \<Rightarrow> if t - t0 \<ge> hold then obj\<lparr>completed := True\<rparr> else obj)
              else obj\<lparr>detail := RelayNode hold th (Some a) None\<rparr>)"
  using assms by (simp add: update_objective_def Let_def split: option.splits)

text \<open>
  The two scenarios of the specification, tick by tick: with a threshold of
  1000 m and a hold duration of 30 s, an agent that enters at 10 s and stays is
  reported completed by the tick at 40 s and by no earlier tick; one that is
  outside at 25 s and back inside at 30 s is reported by the tick at 60 s.
\<close>

lemma relay_scenario_remaining: "snd (run_calls ticks_remaining [relay_demo]) = [[], [], [], [], [], [''relay-1'']]"
  by (simp add: ticks_remaining_def relay_demo_def agent_inside_def agent_outside_def
        update_objective_def distance_along_x Let_def)

lemma relay_scenario_exit_reenter: "snd (run_calls ticks_exit_reenter [relay_demo])
   = [[], [], [], [], [], [], [], [], [''relay-1'']]"
  by (simp add: ticks_exit_reenter_def relay_demo_def agent_inside_def agent_outside_def
        update_objective_def distance_along_x Let_def)

text \<open>
  One call of \<open>updateObjectiveState\<close> at time \<open>t\<close> on a relay node that is
  not completed and whose assigned agent (with a non-empty id) is in the agent
  list. When the agent is within the threshold and no hold start is stored, the
  call stores \<open>t\<close>; when the agent is within the threshold and a hold start
  \<open>t0\<close> is stored, it marks the objective completed if \<open>t - t0\<close> has reached
  the hold duration and leaves it as it is otherwise; when the agent is beyond
  the threshold it unsets the hold start. The call reads the stored hold start,
  whichever agent it was stored for.
\<close>

lemma relay_node_tick:
  assumes "k < length objectives" and "\<not> completed (objectives ! k)"
    and "detail (objectives ! k) = RelayNode hold th (Some a) st" and "a \<noteq> []"
    and "find (\<lambda>x. agent_id x = a) agents = Some ag"
  shows "let obj = objectives ! k;
             d = distance (position (state ag)) (objective_position obj);
             obj' = fst (updateObjectiveState objectives agents t) ! k
         in (d \<le> th \<and> st = None \<longrightarrow> obj' = obj\<lparr>detail := RelayNode hold th (Some a) (Some t)\<rparr>)
          \<and> (\<forall>t0. d \<le> th \<and> st = Some t0 \<longrightarrow>
                obj' = (if t - t0 \<ge> hold then obj\<lparr>completed := True\<rparr> else obj))
          \<and> (d > th \<longrightarrow> obj' = obj\<lparr>detail := RelayNode hold th (Some a) None\<rparr>)
          \<and> (completed obj' \<longleftrightarrow> d \<le> th \<and> (\<exists>t0. st = Some t0 \<and> t - t0 \<ge> hold))"
proof -
  have e: "fst (updateObjectiveState objectives agents t) ! k
             = (if distance (position (state ag)) (objective_position (objectives ! k)) \<le> th
                then (case st of
                        None \<Rightarrow> (objectives ! k)\<lparr>detail := RelayNode hold th (Some a) (Some t)\<rparr>
                      | Some t0 \<Rightarrow>
                          if t - t0 \<ge> hold then (objectives ! k)\<lparr>completed := True\<rparr>
                          else objectives ! k)
                else (objectives ! k)\<lparr>detail := RelayNode hold th (Some a) None\<rparr>)"
    using updateObjectiveState_nth [OF assms(1), of agents t] relay_step [OF assms(2-5), of t]
    by simp
  show ?thesis
    unfolding Let_def e using assms(2) by (cases st) auto
qed

text \<open>
  A run of \<open>updateObjectiveState\<close> calls alone on a relay node that starts
  with no hold start and whose assigned agent is in the agent list of every
  call. After the run the node is in one of three states: no hold start is
  stored; or the stored hold start is the time of a tick of the run since which
  the assigned agent has been within the threshold at every tick; or the node
  is completed, and there are two ticks of the run, the later one at least the
  hold duration after the earlier one, such that the assigned agent has been
  within the threshold at every tick from the one to the other. So on these
  runs a node is completed only after its agent has held it.
\<close>

lemma update_single:
  "fst (updateObjectiveState [obj] agents t) = [fst (update_objective agents t obj)]"
  by (simp split: prod.splits)

lemma run_update_calls_snoc:
  "fst (run_calls (update_calls (ticks @ [(agents, t)])) [obj])
     = fst (updateObjectiveState (fst (run_calls (update_calls ticks) [obj])) agents t)"
  by (simp add: update_calls_def run_calls_append run_calls_update del: run_calls.simps(3))

lemma relay_run_invariant:
  assumes nc: "\<not> completed obj" and dt: "detail obj = RelayNode hold th (Some a) None"
    and a: "a \<noteq> []"
    and present: "\<forall>tick \<in> set ticks. find (\<lambda>x. agent_id x = a) (fst tick) \<noteq> None"
  shows "\<exists>obj'. fst (run_calls (update_calls ticks) [obj]) = [obj']
           \<and> objective_position obj' = objective_position obj
           \<and> ((\<not> completed obj' \<and> detail obj' = RelayNode hold th (Some a) None)
              \<or> (\<not> completed obj'
                  \<and> (\<exists>j < length ticks.
                        detail obj' = RelayNode hold th (Some a) (Some (snd (ticks ! j)))
                        \<and> (\<forall>m. j \<le> m \<and> m < length ticks \<longrightarrow>
                               agent_within obj a th (fst (ticks ! m)))))
              \<or> (completed obj'
                  \<and> (\<exists>j k. j < k \<and> k < length ticks
                        \<and> (\<forall>m. j \<le> m \<and> m \<le> k \<longrightarrow> agent_within obj a th (fst (ticks ! m)))
                        \<and> hold \<le> snd (ticks ! k) - snd (ticks ! j))))"
  using present
proof (induction ticks rule: rev_induct)
  case Nil
  then show ?case using nc dt by (simp add: update_calls_def)
next
  case (snoc tick ticks)
  obtain agents t where tick: "tick = (agents, t)" by (cases tick)
  have pres: "\<forall>tick \<in> set ticks. find (\<lambda>x. agent_id x = a) (fst tick) \<noteq> None"
    using snoc.prems by simp
  obtain ag where ag: "find (\<lambda>x. agent_id x = a) agents = Some ag"
    using snoc.prems tick by auto
  let ?n = "length ticks"
  let ?in = "distance (position (state ag)) (objective_position obj) \<le> th"
  have within: "agent_within obj a th agents \<longleftrightarrow> ?in"
    by (simp add: agent_within_def ag)
  have old: "\<And>m. m < ?n \<Longrightarrow> (ticks @ [tick]) ! m = ticks ! m"
    by (simp add: nth_append)
  have last: "(ticks @ [tick]) ! ?n = (agents, t)"
    by (simp add: tick)
  obtain obj1 where run: "fst (run_calls (update_calls ticks) [obj]) = [obj1]"
    and pos: "objective_position obj1 = objective_position obj"
    and inv: "(\<not> completed obj1 \<and> detail obj1 = RelayNode hold th (Some a) None)
              \<or> (\<not> completed obj1
                  \<and> (\<exists>j < ?n.
                        detail obj1 = RelayNode hold th (Some a) (Some (snd (ticks ! j)))
                        \<and> (\<forall>m. j \<le> m \<and> m < ?n \<longrightarrow> agent_within obj a th (fst (ticks ! m)))))
              \<or> (completed obj1
                  \<and> (\<exists>j k. j < k \<and> k < ?n
                        \<and> (\<forall>m. j \<le> m \<and> m \<le> k \<longrightarrow> agent_within obj a th (fst (ticks ! m)))
                        \<and> hold \<le> snd (ticks ! k) - snd (ticks ! j)))"
    using snoc.IH [OF pres] by blast
  define obj2 where "obj2 = fst (update_objective agents t obj1)"
  have run2: "fst (run_calls (update_calls (ticks @ [tick])) [obj]) = [obj2]"
    by (simp only: tick run_update_calls_snoc run update_single obj2_def)
  consider (idle) "\<not> completed obj1" "detail obj1 = RelayNode hold th (Some a) None"
    | (holding) j where "\<not> completed obj1" "j < ?n"
        "detail obj1 = RelayNode hold th (Some a) (Some (snd (ticks ! j)))"
        "\<forall>m. j \<le> m \<and> m < ?n \<longrightarrow> agent_within obj a th (fst (ticks ! m))"
    | (finished) j k where "completed obj1" "j < k" "k < ?n"
        "\<forall>m. j \<le> m \<and> m \<le> k \<longrightarrow> agent_within obj a th (fst (ticks ! m))"
        "hold \<le> snd (ticks ! k) - snd (ticks ! j)"
    using inv by blast
  then show ?case
  proof cases
    case idle
    have o2: "obj2 = (if ?in then obj1\<lparr>detail := RelayNode hold th (Some a) (Some t)\<rparr>
                      else obj1\<lparr>detail := RelayNode hold th (Some a) None\<rparr>)"
      unfolding obj2_def using relay_step [OF idle(1) idle(2) a ag, of t] by (simp add: pos)
    show ?thesis
    proof (cases ?in)
      case True
      have "\<not> completed obj2" "objective_position obj2 = objective_position obj"
        "detail obj2 = RelayNode hold th (Some a) (Some (snd ((ticks @ [tick]) ! ?n)))"
        using True o2 idle(1) pos last by simp_all
      moreover have "\<forall>m. ?n \<le> m \<and> m < length (ticks @ [tick]) \<longrightarrow>
                       agent_within obj a th (fst ((ticks @ [tick]) ! m))"
      proof (intro allI impI)
        fix m assume "?n \<le> m \<and> m < length (ticks @ [tick])"
        then have "m = ?n" by simp
        then show "agent_within obj a th (fst ((ticks @ [tick]) ! m))"
          using True within last by simp
      qed
      moreover have "?n < length (ticks @ [tick])" by simp
      ultimately show ?thesis using run2 by blast
    next
      case False
      then have "\<not> completed obj2" "objective_position obj2 = objective_position obj"
        "detail obj2 = RelayNode hold th (Some a) None"
        using o2 idle(1) pos by simp_all
      then show ?thesis using run2 by blast
    qed
  next
    case holding
    have o2: "obj2 = (if ?in then (if t - snd (ticks ! j) \<ge> hold then obj1\<lparr>completed := True\<rparr>
                                   else obj1)
                      else obj1\<lparr>detail := RelayNode hold th (Some a) None\<rparr>)"
      unfolding obj2_def using relay_step [OF holding(1) holding(3) a ag, of t] by (simp add: pos)
    have stay: "?in \<Longrightarrow> \<forall>m. j \<le> m \<and> m \<le> ?n \<longrightarrow>
                       agent_within obj a th (fst ((ticks @ [tick]) ! m))"
    proof (intro allI impI)
      fix m assume i: ?in and m: "j \<le> m \<and> m \<le> ?n"
      show "agent_within obj a th (fst ((ticks @ [tick]) ! m))"
      proof (cases "m = ?n")
        case True
        then show ?thesis using i within last by simp
      next
        case False
        then have "m < ?n" using m by simp
        then show ?thesis using holding(4) m old by simp
      qed
    qed
    show ?thesis
    proof (cases ?in)
      case True
      show ?thesis
      proof (cases "t - snd (ticks ! j) \<ge> hold")
        case held: True
        have c: "completed obj2" "objective_position obj2 = objective_position obj"
          using True held o2 pos by simp_all
        have "j < ?n \<and> ?n < length (ticks @ [tick])
                \<and> (\<forall>m. j \<le> m \<and> m \<le> ?n \<longrightarrow> agent_within obj a th (fst ((ticks @ [tick]) ! m)))
                \<and> hold \<le> snd ((ticks @ [tick]) ! ?n) - snd ((ticks @ [tick]) ! j)"
          using holding(2) stay [OF True] held last old [OF holding(2)] by simp
        then show ?thesis using run2 c by blast
      next
        case False
        then have "\<not> completed obj2" "objective_position obj2 = objective_position obj"
          "detail obj2 = RelayNode hold th (Some a) (Some (snd ((ticks @ [tick]) ! j)))"
          using True o2 holding(1,3) pos old [OF holding(2)] by simp_all
        moreover have "\<forall>m. j \<le> m \<and> m < length (ticks @ [tick]) \<longrightarrow>
                         agent_within obj a th (fst ((ticks @ [tick]) ! m))"
          using stay [OF True] by simp
        moreover have "j < length (ticks @ [tick])" using holding(2) by simp
        ultimately show ?thesis using run2 by blast
      qed
    next
      case False
      then have "\<not> completed obj2" "objective_position obj2 = objective_position obj"
        "detail obj2 = RelayNode hold th (Some a) None"
        using o2 holding(1) pos by simp_all
      then show ?thesis using run2 by blast
    qed
  next
    case finished
    have "obj2 = obj1"
      unfolding obj2_def using update_objective_completed [OF finished(1)] by simp
    then have c: "completed obj2" "objective_position obj2 = objective_position obj"
      using finished(1) pos by simp_all
    have "j < k \<and> k < length (ticks @ [tick])
            \<and> (\<forall>m. j \<le> m \<and> m \<le> k \<longrightarrow> agent_within obj a th (fst ((ticks @ [tick]) ! m)))
            \<and> hold \<le> snd ((ticks @ [tick]) ! k) - snd ((ticks @ [tick]) ! j)"
      using finished old by (simp add: nth_append)
    then show ?thesis using run2 c by blast
  qed
qed

lemma relay_completion_needs_hold:
  assumes "\<not> completed obj" and "detail obj = RelayNode hold th (Some a) None" and "a \<noteq> []"
    and "\<forall>tick \<in> set ticks. find (\<lambda>x. agent_id x = a) (fst tick) \<noteq> None"
    and "fst (run_calls (update_calls ticks) [obj]) = [obj']" and "completed obj'"
  shows "\<exists>j k. j < k \<and> k < length ticks
           \<and> (\<forall>m. j \<le> m \<and> m \<le> k \<longrightarrow> agent_within obj a th (fst (ticks ! m)))
           \<and> hold \<le> snd (ticks ! k) - snd (ticks ! j)"
  using relay_run_invariant [OF assms(1-4)] assms(5,6) by auto

text \<open>
  C3. The claim fails on the run \<open>ticks_reassigned\<close>. The first agent enters
  the threshold at t = 10 s and the hold start 10 is stored. At t = 40 s
  \<open>allocateTasks\<close> does not find the first agent and assigns the node to the
  second agent, which is 300 m from the node and was 2000 m from it at every
  earlier tick; \<open>allocateTasks\<close> leaves the stored hold start as it is. The
  call of \<open>updateObjectiveState\<close> at t = 40 s is the first that finds the second
  agent within the threshold: it does not store 40 as the hold start, it reads
  the 10 stored for the first agent and reports the node completed.
\<close>

theorem relay_reassigned_completes_without_hold:
  "distance (position (state second_outside)) (objective_position relay_demo) = 2000
   \<and> distance (position (state second_inside)) (objective_position relay_demo) = 300
   \<and> fst (run_calls (take 2 ticks_reassigned) [relay_demo])
       = [relay_demo\<lparr>detail := RelayNode 30 1000 (Some ''agent-0'') (Some 10)\<rparr>]
   \<and> fst (run_calls (take 3 ticks_reassigned) [relay_demo])
       = [relay_demo\<lparr>detail := RelayNode 30 1000 (Some ''agent-1'') (Some 10)\<rparr>]
   \<and> run_calls ticks_reassigned [relay_demo]
       = ([relay_demo\<lparr>completed := True,
                       detail := RelayNode 30 1000 (Some ''agent-1'') (Some 10)\<rparr>],
          [[], [], [''relay-1'']])"
  by (simp add: ticks_reassigned_def relay_demo_def agent_inside_def second_outside_def
        second_inside_def update_objective_def allocateTasks_def allocate_objective_def
        relay_assign_nearest_def findNearestAgent_def distance_along_x Let_def)

text \<open>
  C8. Along every sequence of \<open>allocateTasks\<close> and \<open>updateObjectiveState\<close>
  calls on a list of objectives with unique ids, an objective that is completed
  after some prefix of the calls is completed after every longer prefix, and
  the id of an objective occurs in the returned arrays of the whole sequence
  exactly once, in exactly one call, when the objective goes from not completed
  to completed during the sequence, and never otherwise.
\<close>

theorem completed_monotonic_emitted_once:
  assumes "distinct (map objective_id objectives)" and "k < length objectives"
  shows "(completed (fst (run_calls cs1 objectives) ! k)
            \<longrightarrow> completed (fst (run_calls (cs1 @ cs2) objectives) ! k))
       \<and> count_list (concat (snd (run_calls cs objectives))) (objective_id (objectives ! k))
           = (if \<not> completed (objectives ! k) \<and> completed (fst (run_calls cs objectives) ! k)
              then 1 else 0)
       \<and> length (filter (\<lambda>out. objective_id (objectives ! k) \<in> set out)
                   (snd (run_calls cs objectives)))
           = (if \<not> completed (objectives ! k) \<and> completed (fst (run_calls cs objectives) ! k)
              then 1 else 0)"
proof -
  have "k < length (fst (run_calls cs1 objectives))"
    using assms(2) run_calls_shape [of cs1 objectives] by simp
  then have "completed (fst (run_calls cs1 objectives) ! k)
            \<longrightarrow> completed (fst (run_calls (cs1 @ cs2) objectives) ! k)"
    by (simp add: run_calls_append run_calls_mono)
  then show ?thesis
    using run_calls_count [OF assms, of cs] by simp
qed

theorem completed_monotonic_emitted_once_witness:
  "distinct (map objective_id [relay_demo]) \<and> (0::nat) < length [relay_demo]
   \<and> completed (fst (run_calls ticks_remaining [relay_demo]) ! 0)
   \<and> completed (fst (run_calls (ticks_remaining @ [AllocateTasks [agent_outside],
                     UpdateObjectiveState [agent_outside] 50]) [relay_demo]) ! 0)
   \<and> count_list (concat (snd (run_calls (ticks_remaining @ [AllocateTasks [agent_outside],
                     UpdateObjectiveState [agent_outside] 50]) [relay_demo]))) ''relay-1'' = 1"
proof -
  let ?more = "[AllocateTasks [agent_outside], UpdateObjectiveState [agent_outside] 50]"
  have h1: "distinct (map objective_id [relay_demo])" by simp
  have h2: "(0::nat) < length [relay_demo]" by simp
  have c: "completed (fst (run_calls ticks_remaining [relay_demo]) ! 0)"
    by (simp add: ticks_remaining_def relay_demo_def agent_inside_def agent_outside_def
          update_objective_def distance_along_x Let_def)
  have c': "completed (fst (run_calls (ticks_remaining @ ?more) [relay_demo]) ! 0)"
    using completed_monotonic_emitted_once [OF h1 h2, of ticks_remaining ?more] c by simp
  have "count_list (concat (snd (run_calls (ticks_remaining @ ?more) [relay_demo]))) ''relay-1'' = 1"
    using completed_monotonic_emitted_once [OF h1 h2, of "[]" "[]" "ticks_remaining @ ?more"] c'
    by (simp add: relay_demo_def)
  with h1 h2 c c' show ?thesis by blast
qed

section \<open>Properties of objective steering\<close>

lemma sqrt_squares: "sqrt 100 = 10" "sqrt 250000 = 500" "sqrt 10000 = 100"
  using real_sqrt_abs2 [of 10] real_sqrt_abs2 [of 500] real_sqrt_abs2 [of 100] by simp_all

text \<open>
  C7. On the mixed list (inspect point at 10 m, relay node assigned to the
  agent at 500 m, inspect point at 100 m, in this order) the loop ends with the
  second inspect point as its target: the relay node replaces the first inspect
  point, and the second inspect point, nearer than the relay node, replaces the
  relay node. The steering points along the z-axis, to an objective that is
  neither the nearest inspect point nor the agent's relay node.
\<close>

theorem steering_mixed_list:
  "steering_target steering_agent [inspect_near, relay_far, inspect_mid] None = Some inspect_mid
   \<and> computeObjectiveSteering steering_agent [inspect_near, relay_far, inspect_mid]
        DEFAULT_OBJECTIVE_STEERING_PARAMS = \<lparr>delta = (0, 0, 1 / 2)\<rparr>"
  by (simp add: computeObjectiveSteering_def steering_agent_def inspect_near_def relay_far_def
        inspect_mid_def DEFAULT_OBJECTIVE_STEERING_PARAMS_def distance_def sqrt_squares Let_def)

section \<open>Properties of minimum separation\<close>

lemma sqrt_less_nonneg: "0 \<le> m \<Longrightarrow> sqrt x < m \<longleftrightarrow> x < m * m"
  using real_sqrt_less_iff [of x "m * m"] by simp

lemma sqrt_greater_floor: "sqrt x > 1 / 1000000 \<longleftrightarrow> x > 1 / 1000000000000"
proof -
  have e: "sqrt (1 / 1000000000000) = 1 / 1000000"
    using real_sqrt_abs2 [of "1 / 1000000"] by simp
  have "sqrt x > 1 / 1000000 \<longleftrightarrow> sqrt (1 / 1000000000000) < sqrt x"
    unfolding e ..
  also have "\<dots> \<longleftrightarrow> 1 / 1000000000000 < x"
    by (rule real_sqrt_less_iff)
  finally show ?thesis .
qed

lemma vadd_zero: "vadd a (0, 0, 0) = a" "vsub a (0, 0, 0) = a"
  by (simp_all add: vadd_def vsub_def xcomp_def ycomp_def zcomp_def)

lemma separation_pair_effect:
  assumes "0 \<le> minSeparation params" and "i < length adjs" and "j < length adjs"
  shows "separation_pair params agents i j adjs
           = sub_from_delta
               (adjs[i := (adjs ! i)\<lparr>delta := vadd (delta (adjs ! i))
                   (spec_pair_repulsion params (position (state (agents ! i)))
                      (position (state (agents ! j))))\<rparr>])
               j (spec_pair_repulsion params (position (state (agents ! i)))
                      (position (state (agents ! j))))"
proof -
  obtain px py pz where p: "position (state (agents ! i)) = (px, py, pz)"
    by (cases "position (state (agents ! i))")
  obtain ox oy oz where q: "position (state (agents ! j)) = (ox, oy, oz)"
    by (cases "position (state (agents ! j))")
  let ?sq = "(px - ox) * (px - ox) + (py - oy) * (py - oy) + (pz - oz) * (pz - oz)"
  have d: "distance (ox, oy, oz) (px, py, pz) = sqrt ?sq"
    by (simp add: distance_def Let_def)
  have cond: "(?sq < minSeparation params * minSeparation params \<and> ?sq > 1 / 1000000000000)
               \<longleftrightarrow> (sqrt ?sq < minSeparation params \<and> sqrt ?sq > 1 / 1000000)"
    using sqrt_less_nonneg [OF assms(1), of ?sq] sqrt_greater_floor [of ?sq] by simp
  show ?thesis
  proof (cases "sqrt ?sq < minSeparation params \<and> sqrt ?sq > 1 / 1000000")
    case True
    have code: "?sq < minSeparation params * minSeparation params \<and> ?sq > 1 / 1000000000000"
      using cond True by blast
    show ?thesis
      using code True assms(2,3)
      by (simp add: separation_pair_def spec_pair_repulsion_def p q d Let_def add_to_delta_def
            xcomp_def ycomp_def zcomp_def)
  next
    case False
    have "spec_pair_repulsion params (px, py, pz) (ox, oy, oz) = (0, 0, 0)"
      using False by (auto simp add: spec_pair_repulsion_def d Let_def)
    moreover have "\<not> (?sq < minSeparation params * minSeparation params
                         \<and> ?sq > 1 / 1000000000000)"
      using cond False by blast
    ultimately show ?thesis
      using assms(2,3)
      by (auto simp add: separation_pair_def p q Let_def sub_from_delta_def vadd_zero)
  qed
qed

lemma component_linear:
  "is_component c \<Longrightarrow> c (vadd a b) = c a + c b"
  "is_component c \<Longrightarrow> c (vsub a b) = c a - c b"
  by (auto simp: is_component_def vadd_def vsub_def xcomp_def ycomp_def zcomp_def)

lemma separation_pair_component:
  assumes "0 \<le> minSeparation params" and "i < length adjs" and "j < length adjs" and "i \<noteq> j"
  shows "\<exists>adjs'. separation_pair params agents i j adjs = Inr adjs'
           \<and> length adjs' = length adjs
           \<and> (\<forall>k c. k < length adjs \<and> is_component c \<longrightarrow>
                 c (delta (adjs' ! k)) = c (delta (adjs ! k))
                   + (if k = i then c (repulsion_between params agents i j)
                      else if k = j then - c (repulsion_between params agents i j) else 0))"
  using assms
  by (simp add: separation_pair_effect sub_from_delta_def repulsion_between_def
        nth_list_update component_linear)

lemma separation_inner_component:
  assumes "0 \<le> minSeparation params" and "length agents \<le> length adjs" and "i < j"
  shows "\<exists>adjs'. separation_inner params agents i j adjs = Inr adjs'
           \<and> length adjs' = length adjs
           \<and> (\<forall>k c. k < length adjs \<and> is_component c \<longrightarrow>
                 c (delta (adjs' ! k)) = c (delta (adjs ! k))
                   + (if k = i then (\<Sum>m = j..<length agents. c (repulsion_between params agents i m))
                      else if j \<le> k \<and> k < length agents
                           then - c (repulsion_between params agents i k) else 0))"
  using assms
proof (induction "length agents - j" arbitrary: j adjs)
  case 0
  then have "\<not> j < length agents" by simp
  then show ?case
    by (subst separation_inner.simps) simp
next
  case (Suc n)
  have j: "j < length agents" using Suc.hyps(2) by simp
  have i: "i < length adjs" "j < length adjs" "i \<noteq> j"
    using j Suc.prems by simp_all
  obtain adjs1 where p1: "separation_pair params agents i j adjs = Inr adjs1"
    and l1: "length adjs1 = length adjs"
    and e1: "\<And>k c. k < length adjs \<Longrightarrow> is_component c \<Longrightarrow>
                 c (delta (adjs1 ! k)) = c (delta (adjs ! k))
                   + (if k = i then c (repulsion_between params agents i j)
                      else if k = j then - c (repulsion_between params agents i j) else 0)"
    using separation_pair_component [OF Suc.prems(1) i, of agents] by blast
  have n: "n = length agents - (j + 1)" using Suc.hyps(2) by simp
  obtain adjs' where p2: "separation_inner params agents i (j + 1) adjs1 = Inr adjs'"
    and l2: "length adjs' = length adjs1"
    and e2: "\<And>k c. k < length adjs1 \<Longrightarrow> is_component c \<Longrightarrow>
                 c (delta (adjs' ! k)) = c (delta (adjs1 ! k))
                   + (if k = i then (\<Sum>m = j + 1..<length agents. c (repulsion_between params agents i m))
                      else if j + 1 \<le> k \<and> k < length agents
                           then - c (repulsion_between params agents i k) else 0)"
    using Suc.hyps(1) [OF n Suc.prems(1), of adjs1] Suc.prems(2,3) l1 by auto
  have r: "separation_inner params agents i j adjs = Inr adjs'"
    using j p1 p2 by (subst separation_inner.simps) simp
  have "c (delta (adjs' ! k)) = c (delta (adjs ! k))
                   + (if k = i then (\<Sum>m = j..<length agents. c (repulsion_between params agents i m))
                      else if j \<le> k \<and> k < length agents
                           then - c (repulsion_between params agents i k) else 0)"
    if k: "k < length adjs" and c: "is_component c" for k c
    using e1 [OF k c] e2 [of k c] k c l1 i j
    by (auto simp: sum.atLeast_Suc_lessThan)
  then show ?case
    using r l1 l2 by auto
qed

lemma separation_outer_component:
  assumes "0 \<le> minSeparation params" and "length agents \<le> length adjs"
  shows "\<exists>adjs'. separation_outer params agents i adjs = Inr adjs'
           \<and> length adjs' = length adjs
           \<and> (\<forall>k c. k < length adjs \<and> is_component c \<longrightarrow>
                 c (delta (adjs' ! k)) = c (delta (adjs ! k))
                   + (if k < i \<or> length agents \<le> k then 0
                      else (\<Sum>m = k + 1..<length agents. c (repulsion_between params agents k m))
                           - (\<Sum>a = i..<k. c (repulsion_between params agents a k))))"
  using assms
proof (induction "length agents - i" arbitrary: i adjs)
  case 0
  then have "\<not> i < length agents" by simp
  then show ?case
    by (subst separation_outer.simps) auto
next
  case (Suc n)
  have i: "i < length agents" using Suc.hyps(2) by simp
  obtain adjs1 where p1: "separation_inner params agents i (i + 1) adjs = Inr adjs1"
    and l1: "length adjs1 = length adjs"
    and e1: "\<And>k c. k < length adjs \<Longrightarrow> is_component c \<Longrightarrow>
                 c (delta (adjs1 ! k)) = c (delta (adjs ! k))
                   + (if k = i then (\<Sum>m = i + 1..<length agents. c (repulsion_between params agents i m))
                      else if i + 1 \<le> k \<and> k < length agents
                           then - c (repulsion_between params agents i k) else 0)"
    using separation_inner_component [OF Suc.prems(1,2), of i "i + 1"] by auto
  have n: "n = length agents - (i + 1)" using Suc.hyps(2) by simp
  obtain adjs' where p2: "separation_outer params agents (i + 1) adjs1 = Inr adjs'"
    and l2: "length adjs' = length adjs1"
    and e2: "\<And>k c. k < length adjs1 \<Longrightarrow> is_component c \<Longrightarrow>
                 c (delta (adjs' ! k)) = c (delta (adjs1 ! k))
                   + (if k < i + 1 \<or> length agents \<le> k then 0
                      else (\<Sum>m = k + 1..<length agents. c (repulsion_between params agents k m))
                           - (\<Sum>a = i + 1..<k. c (repulsion_between params agents a k)))"
    using Suc.hyps(1) [OF n Suc.prems(1), of adjs1] Suc.prems(2) l1 by auto
  have r: "separation_outer params agents i adjs = Inr adjs'"
    using i p1 p2 by (subst separation_outer.simps) simp
  have "c (delta (adjs' ! k)) = c (delta (adjs ! k))
                   + (if k < i \<or> length agents \<le> k then 0
                      else (\<Sum>m = k + 1..<length agents. c (repulsion_between params agents k m))
                           - (\<Sum>a = i..<k. c (repulsion_between params agents a k)))"
    if k: "k < length adjs" and c: "is_component c" for k c
    using e1 [OF k c] e2 [of k c] k c l1 i
    by (cases "k = i"; cases "k < i") (auto simp: sum.atLeast_Suc_lessThan)
  then show ?case
    using r l1 l2 by auto
qed

lemma distance_commute: "distance p q = distance q p"
proof -
  obtain a b c where p: "p = (a, b, c)" by (cases p)
  obtain d e f where q: "q = (d, e, f)" by (cases q)
  have "(d - a) * (d - a) + (e - b) * (e - b) + (f - c) * (f - c)
          = (a - d) * (a - d) + (b - e) * (b - e) + (c - f) * (c - f)"
    by (simp add: algebra_simps)
  then show ?thesis
    by (simp add: distance_def p q Let_def)
qed

lemma swap_difference: "(a - b) / d * w = - ((b - a) / d * (w::real))"
proof -
  have "a - b = - (b - a)" by simp
  then show ?thesis by (simp only: minus_divide_left [symmetric] mult_minus_left)
qed

lemma component_tuple: "xcomp (a, b, c) = a" "ycomp (a, b, c) = b" "zcomp (a, b, c) = c"
  by (simp_all add: xcomp_def ycomp_def zcomp_def)

lemma spec_pair_repulsion_opposite:
  assumes "is_component c"
  shows "c (spec_pair_repulsion params q p) = - c (spec_pair_repulsion params p q)"
proof (cases "distance q p < minSeparation params \<and> distance q p > 1 / 1000000")
  case True
  let ?d = "distance q p"
  let ?w = "separationWeight params * ((minSeparation params - ?d) / minSeparation params) * 10"
  have A: "spec_pair_repulsion params q p
      = ((xcomp q - xcomp p) / ?d * ?w, (ycomp q - ycomp p) / ?d * ?w, (zcomp q - zcomp p) / ?d * ?w)"
    using True by (simp add: spec_pair_repulsion_def distance_commute [of p q] Let_def)
  have B: "spec_pair_repulsion params p q
      = ((xcomp p - xcomp q) / ?d * ?w, (ycomp p - ycomp q) / ?d * ?w, (zcomp p - zcomp q) / ?d * ?w)"
    using True by (simp add: spec_pair_repulsion_def Let_def)
  have h: "(xcomp q - xcomp p) / ?d * ?w = - ((xcomp p - xcomp q) / ?d * ?w)"
          "(ycomp q - ycomp p) / ?d * ?w = - ((ycomp p - ycomp q) / ?d * ?w)"
          "(zcomp q - zcomp p) / ?d * ?w = - ((zcomp p - zcomp q) / ?d * ?w)"
    by (rule swap_difference)+
  from assms consider "c = xcomp" | "c = ycomp" | "c = zcomp"
    unfolding is_component_def by blast
  then show ?thesis
  proof cases
    case 1
    then show ?thesis by (simp only: A B component_tuple h)
  next
    case 2
    then show ?thesis by (simp only: A B component_tuple h)
  next
    case 3
    then show ?thesis by (simp only: A B component_tuple h)
  qed
next
  case False
  then have "spec_pair_repulsion params q p = (0, 0, 0)"
    and "spec_pair_repulsion params p q = (0, 0, 0)"
    by (auto simp add: spec_pair_repulsion_def distance_commute [of p q] Let_def)
  then show ?thesis
    using assms by (auto simp: is_component_def component_tuple)
qed

lemma repulsion_between_opposite:
  "is_component c \<Longrightarrow>
     c (repulsion_between params agents j i) = - c (repulsion_between params agents i j)"
  unfolding repulsion_between_def by (rule spec_pair_repulsion_opposite)

lemma others_split:
  assumes "k < (n::nat)"
  shows "(\<Sum>m \<in> {..<n} - {k}. f m) = (\<Sum>m = k + 1..<n. f m) + (\<Sum>a = 0..<k. f a)"
proof -
  have "{..<n} - {k} = {k + 1..<n} \<union> {0..<k}" using assms by auto
  moreover have "{k + 1..<n} \<inter> {0..<k} = {}" by auto
  ultimately show ?thesis
    by (simp add: sum.union_disjoint)
qed

lemma enforce_component:
  assumes "0 \<le> minSeparation params" and "length agents \<le> length adjustments"
  shows "\<exists>adjs'. enforceMinimumSeparation agents adjustments params = Inr adjs'
           \<and> length adjs' = length adjustments
           \<and> (\<forall>k c. k < length agents \<and> is_component c \<longrightarrow>
                 c (delta (adjs' ! k)) = c (delta (adjustments ! k))
                   + (\<Sum>m \<in> {..<length agents} - {k}. c (repulsion_between params agents k m)))
           \<and> (\<forall>k. length agents \<le> k \<and> k < length adjustments \<longrightarrow> adjs' ! k = adjustments ! k)"
proof -
  obtain adjs' where p: "separation_outer params agents 0 adjustments = Inr adjs'"
    and l: "length adjs' = length adjustments"
    and e: "\<And>k c. k < length adjustments \<Longrightarrow> is_component c \<Longrightarrow>
                 c (delta (adjs' ! k)) = c (delta (adjustments ! k))
                   + (if k < 0 \<or> length agents \<le> k then 0
                      else (\<Sum>m = k + 1..<length agents. c (repulsion_between params agents k m))
                           - (\<Sum>a = 0..<k. c (repulsion_between params agents a k)))"
    using separation_outer_component [OF assms, of 0] by auto
  have inside: "c (delta (adjs' ! k)) = c (delta (adjustments ! k))
                   + (\<Sum>m \<in> {..<length agents} - {k}. c (repulsion_between params agents k m))"
    if k: "k < length agents" and c: "is_component c" for k c
  proof -
    have "c (repulsion_between params agents a k) = - c (repulsion_between params agents k a)"
      for a by (rule repulsion_between_opposite [OF c])
    then have "(\<Sum>a = 0..<k. c (repulsion_between params agents a k))
            = - (\<Sum>a = 0..<k. c (repulsion_between params agents k a))"
      by (simp only: sum_negf)
    then show ?thesis
      using e [of k c] k c assms(2)
        others_split [OF k, of "\<lambda>m. c (repulsion_between params agents k m)"] by simp
  qed
  have outside: "adjs' ! k = adjustments ! k"
    if k: "length agents \<le> k" "k < length adjustments" for k
  proof -
    have "xcomp (delta (adjs' ! k)) = xcomp (delta (adjustments ! k))"
         "ycomp (delta (adjs' ! k)) = ycomp (delta (adjustments ! k))"
         "zcomp (delta (adjs' ! k)) = zcomp (delta (adjustments ! k))"
      using e [of k xcomp] e [of k ycomp] e [of k zcomp] k by (simp_all add: is_component_def)
    then have "delta (adjs' ! k) = delta (adjustments ! k)"
      by (simp add: xcomp_def ycomp_def zcomp_def prod_eq_iff)
    then show ?thesis by simp
  qed
  show ?thesis
    using p l inside outside by (auto simp: enforceMinimumSeparation_def)
qed


lemma scaled_unit_magnitude:
  assumes "d = sqrt (a * a + b * b + c * c)" and "0 < d"
  shows "magnitude (a / d * w, b / d * w, c / d * w) = \<bar>w\<bar>"
proof -
  have dd: "d * d = a * a + b * b + c * c"
    using assms by (simp add: real_sqrt_mult_self abs_of_nonneg add_nonneg_nonneg)
  have t: "x / d * w * (x / d * w) = x * x / (d * d) * (w * w)" for x
    by simp
  have "a / d * w * (a / d * w) + b / d * w * (b / d * w) + c / d * w * (c / d * w)
          = (a * a / (d * d) + b * b / (d * d) + c * c / (d * d)) * (w * w)"
    by (simp only: t distrib_right)
  also have "\<dots> = (a * a + b * b + c * c) / (d * d) * (w * w)"
    by (simp only: add_divide_distrib)
  also have "\<dots> = w * w"
    using assms(2) by (simp add: dd [symmetric])
  finally show ?thesis
    by (simp add: magnitude_def)
qed

lemma spec_pair_repulsion_cases:
  fixes params p q
  defines "d \<equiv> distance q p"
  assumes "0 \<le> minSeparation params"
  shows "(minSeparation params \<le> d \<or> d \<le> 1 / 1000000 \<longrightarrow>
            spec_pair_repulsion params p q = (0, 0, 0))
       \<and> (d < minSeparation params \<and> 1 / 1000000 < d \<longrightarrow>
            spec_pair_repulsion params p q
              = ((xcomp p - xcomp q) / d * (separationWeight params * ((minSeparation params - d) / minSeparation params) * 10),
                 (ycomp p - ycomp q) / d * (separationWeight params * ((minSeparation params - d) / minSeparation params) * 10),
                 (zcomp p - zcomp q) / d * (separationWeight params * ((minSeparation params - d) / minSeparation params) * 10))
            \<and> magnitude (spec_pair_repulsion params p q)
                = \<bar>separationWeight params\<bar> * ((minSeparation params - d) / minSeparation params) * 10)"
proof (intro conjI impI)
  assume "minSeparation params \<le> d \<or> d \<le> 1 / 1000000"
  then show "spec_pair_repulsion params p q = (0, 0, 0)"
    by (auto simp: spec_pair_repulsion_def d_def Let_def)
next
  assume c: "d < minSeparation params \<and> 1 / 1000000 < d"
  let ?w = "separationWeight params * ((minSeparation params - d) / minSeparation params) * 10"
  show e: "spec_pair_repulsion params p q
              = ((xcomp p - xcomp q) / d * ?w, (ycomp p - ycomp q) / d * ?w, (zcomp p - zcomp q) / d * ?w)"
    using c by (simp add: spec_pair_repulsion_def d_def Let_def)
  have dpos: "0 < d" using c by simp
  have dsq: "d = sqrt ((xcomp p - xcomp q) * (xcomp p - xcomp q) + (ycomp p - ycomp q) * (ycomp p - ycomp q)
                        + (zcomp p - zcomp q) * (zcomp p - zcomp q))"
    by (cases p; cases q) (simp add: d_def distance_def Let_def xcomp_def ycomp_def zcomp_def)
  have "0 \<le> (minSeparation params - d) / minSeparation params"
    using c dpos by simp
  then have "\<bar>(minSeparation params - d) / minSeparation params\<bar>
               = (minSeparation params - d) / minSeparation params"
    by (rule abs_of_nonneg)
  then have "\<bar>?w\<bar> = \<bar>separationWeight params\<bar> * ((minSeparation params - d) / minSeparation params) * 10"
    by (simp only: abs_mult abs_numeral)
  then show "magnitude (spec_pair_repulsion params p q)
                = \<bar>separationWeight params\<bar> * ((minSeparation params - d) / minSeparation params) * 10"
    using scaled_unit_magnitude [OF dsq dpos, of ?w] e by simp
qed

text \<open>
  C5. For a non-negative \<open>minSeparation\<close> and an adjustment for every agent,
  \<open>enforceMinimumSeparation\<close> returns normally, and the adjustment of each
  agent is its adjustment before the call plus, for every other agent of the
  list, the repulsion between the two. The repulsion that one agent of a pair
  receives is the opposite of the one the other receives. It is zero when the
  distance of the pair is at least \<open>minSeparation\<close> or at most the floor of
  \<open>1e-6\<close> m, so that such a pair changes neither adjustment; otherwise it
  points along the line from the other agent to this one and its magnitude is
  the separation weight times \<open>(minSeparation - distance) / minSeparation\<close>
  times 10.
\<close>

theorem enforceMinimumSeparation_pairwise:
  assumes "0 \<le> minSeparation params" and "length agents \<le> length adjustments"
  shows "\<exists>adjs'. enforceMinimumSeparation agents adjustments params = Inr adjs'
     \<and> length adjs' = length adjustments
     \<and> (\<forall>k. k < length agents \<longrightarrow>
           xcomp (delta (adjs' ! k)) = xcomp (delta (adjustments ! k))
             + (\<Sum>m \<in> {..<length agents} - {k}. xcomp (repulsion_between params agents k m))
         \<and> ycomp (delta (adjs' ! k)) = ycomp (delta (adjustments ! k))
             + (\<Sum>m \<in> {..<length agents} - {k}. ycomp (repulsion_between params agents k m))
         \<and> zcomp (delta (adjs' ! k)) = zcomp (delta (adjustments ! k))
             + (\<Sum>m \<in> {..<length agents} - {k}. zcomp (repulsion_between params agents k m)))
     \<and> (\<forall>i j. i < length agents \<and> j < length agents \<longrightarrow>
           repulsion_between params agents j i
             = vsub (0, 0, 0) (repulsion_between params agents i j))
     \<and> (\<forall>i j. i < length agents \<and> j < length agents \<longrightarrow>
          (let p = position (state (agents ! i)); q = position (state (agents ! j));
                   d = distance q p;
                   w = separationWeight params * ((minSeparation params - d) / minSeparation params) * 10
               in (minSeparation params \<le> d \<or> d \<le> 1 / 1000000 \<longrightarrow>
                     repulsion_between params agents i j = (0, 0, 0))
                \<and> (d < minSeparation params \<and> 1 / 1000000 < d \<longrightarrow>
                     repulsion_between params agents i j
                       = ((xcomp p - xcomp q) / d * w, (ycomp p - ycomp q) / d * w, (zcomp p - zcomp q) / d * w)
                     \<and> magnitude (repulsion_between params agents i j)
                         = \<bar>separationWeight params\<bar>
                             * ((minSeparation params - d) / minSeparation params) * 10)))"
proof -
  obtain adjs' where r: "enforceMinimumSeparation agents adjustments params = Inr adjs'"
    and l: "length adjs' = length adjustments"
    and e: "\<And>k c. k < length agents \<Longrightarrow> is_component c \<Longrightarrow>
                 c (delta (adjs' ! k)) = c (delta (adjustments ! k))
                   + (\<Sum>m \<in> {..<length agents} - {k}. c (repulsion_between params agents k m))"
    using enforce_component [OF assms] by blast
  have comps: "is_component xcomp" "is_component ycomp" "is_component zcomp"
    by (simp_all add: is_component_def)
  have opp: "repulsion_between params agents j i
                 = vsub (0, 0, 0) (repulsion_between params agents i j)" for i j
    using repulsion_between_opposite [OF comps(1), of params agents j i]
          repulsion_between_opposite [OF comps(2), of params agents j i]
          repulsion_between_opposite [OF comps(3), of params agents j i]
    by (simp add: vsub_def xcomp_def ycomp_def zcomp_def prod_eq_iff)
  have dich: "let p = position (state (agents ! i)); q = position (state (agents ! j));
                   d = distance q p;
                   w = separationWeight params * ((minSeparation params - d) / minSeparation params) * 10
               in (minSeparation params \<le> d \<or> d \<le> 1 / 1000000 \<longrightarrow>
                     repulsion_between params agents i j = (0, 0, 0))
                \<and> (d < minSeparation params \<and> 1 / 1000000 < d \<longrightarrow>
                     repulsion_between params agents i j
                       = ((xcomp p - xcomp q) / d * w, (ycomp p - ycomp q) / d * w, (zcomp p - zcomp q) / d * w)
                     \<and> magnitude (repulsion_between params agents i j)
                         = \<bar>separationWeight params\<bar>
                             * ((minSeparation params - d) / minSeparation params) * 10)" for i j
    unfolding Let_def repulsion_between_def
    using spec_pair_repulsion_cases [OF assms(1), of "position (state (agents ! j))"
            "position (state (agents ! i))"]
    by blast
  show ?thesis
    using r l e [OF _ comps(1)] e [OF _ comps(2)] e [OF _ comps(3)] opp dich by blast
qed

theorem enforceMinimumSeparation_pairwise_witness:
  "0 \<le> minSeparation DEFAULT_BEHAVIOR_PARAMS
   \<and> length agents_500m_apart \<le> length [zero_adjustment, zero_adjustment]
   \<and> (\<exists>adjs'. enforceMinimumSeparation agents_500m_apart [zero_adjustment, zero_adjustment]
                 DEFAULT_BEHAVIOR_PARAMS = Inr adjs'
          \<and> length adjs' = 2
          \<and> xcomp (delta (adjs' ! 0)) = - 5 \<and> xcomp (delta (adjs' ! 1)) = 5)"
proof -
  have h1: "0 \<le> minSeparation DEFAULT_BEHAVIOR_PARAMS"
    by (simp add: DEFAULT_BEHAVIOR_PARAMS_def)
  have h2: "length agents_500m_apart \<le> length [zero_adjustment, zero_adjustment]"
    by (simp add: agents_500m_apart_def)
  have s0: "{..<length agents_500m_apart} - {0} = {1}" and s1: "{..<length agents_500m_apart} - {1} = {0}"
    by (auto simp: agents_500m_apart_def)
  have r01: "repulsion_between DEFAULT_BEHAVIOR_PARAMS agents_500m_apart 0 1 = (- 5, 0, 0)"
    by (simp add: repulsion_between_def spec_pair_repulsion_def agents_500m_apart_def
          DEFAULT_BEHAVIOR_PARAMS_def distance_along_x Let_def xcomp_def ycomp_def zcomp_def)
  have r10: "repulsion_between DEFAULT_BEHAVIOR_PARAMS agents_500m_apart 1 0 = (5, 0, 0)"
    by (simp add: repulsion_between_def spec_pair_repulsion_def agents_500m_apart_def
          DEFAULT_BEHAVIOR_PARAMS_def distance_along_x Let_def xcomp_def ycomp_def zcomp_def)
  have l: "(0::nat) < length agents_500m_apart" "(1::nat) < length agents_500m_apart"
    by (simp_all add: agents_500m_apart_def)
  obtain adjs' where r: "enforceMinimumSeparation agents_500m_apart [zero_adjustment, zero_adjustment]
                 DEFAULT_BEHAVIOR_PARAMS = Inr adjs'"
    and len: "length adjs' = length [zero_adjustment, zero_adjustment]"
    and e: "\<And>k. k < length agents_500m_apart \<Longrightarrow>
           xcomp (delta (adjs' ! k)) = xcomp (delta ([zero_adjustment, zero_adjustment] ! k))
             + (\<Sum>m \<in> {..<length agents_500m_apart} - {k}.
                  xcomp (repulsion_between DEFAULT_BEHAVIOR_PARAMS agents_500m_apart k m))"
    using enforceMinimumSeparation_pairwise [OF h1 h2] by blast
  have "xcomp (delta (adjs' ! 0)) = - 5" "xcomp (delta (adjs' ! 1)) = 5"
    using e [OF l(1)] e [OF l(2)] s0 s1 r01 r10
    by (simp_all add: zero_adjustment_def xcomp_def)
  with h1 h2 r len show ?thesis by auto
qed

section \<open>Properties of angle normalization\<close>

lemma js_rem_nonneg_range:
  assumes "0 < y" and "0 \<le> x"
  shows "0 \<le> js_rem x y \<and> js_rem x y < y"
proof -
  have q: "0 \<le> x / y" using assms by simp
  have yq: "y * (x / y) = x" using assms(1) by simp
  have "y * of_int \<lfloor>x / y\<rfloor> \<le> y * (x / y)"
    using assms(1) by (intro mult_left_mono) simp_all
  moreover have "y * (x / y) < y * (of_int \<lfloor>x / y\<rfloor> + 1)"
    using assms(1) by (intro mult_strict_left_mono) linarith+
  ultimately have "y * of_int \<lfloor>x / y\<rfloor> \<le> x" and "x < y * (of_int \<lfloor>x / y\<rfloor> + 1)"
    by (simp_all only: yq)
  then show ?thesis
    using q by (simp add: js_rem_def algebra_simps)
qed

lemma js_rem_neg_range:
  assumes "0 < y" and "x < 0"
  shows "- y < js_rem x y \<and> js_rem x y \<le> 0"
proof -
  have "x / y < 0" using assms by (rule_tac divide_neg_pos)
  then have q: "\<not> 0 \<le> x / y" by simp
  have yq: "y * (x / y) = x" using assms(1) by simp
  have "y * (x / y) \<le> y * of_int \<lceil>x / y\<rceil>"
    using assms(1) by (intro mult_left_mono) simp_all
  moreover have "y * (of_int \<lceil>x / y\<rceil> - 1) < y * (x / y)"
    using assms(1) by (intro mult_strict_left_mono) linarith+
  ultimately have "x \<le> y * of_int \<lceil>x / y\<rceil>" and "y * (of_int \<lceil>x / y\<rceil> - 1) < x"
    by (simp_all only: yq)
  then show ?thesis
    using q by (simp add: js_rem_def algebra_simps)
qed

lemma normalizeAngle_range: "0 \<le> normalizeAngle x \<and> normalizeAngle x < 2 * pi"
proof (cases "0 \<le> x")
  case True
  then show ?thesis
    using js_rem_nonneg_range [of "2 * pi" x] by (simp add: normalizeAngle_def Let_def)
next
  case False
  then show ?thesis
    using js_rem_neg_range [of "2 * pi" x] by (auto simp add: normalizeAngle_def Let_def)
qed

lemma js_rem_small: 
  assumes "0 \<le> x" and "x < y"
  shows "js_rem x y = x"
proof -
  have y: "0 < y" using assms by simp
  have "0 \<le> x / y" "x / y < 1" using assms y by simp_all
  then have "\<lfloor>x / y\<rfloor> = 0" by linarith
  then show ?thesis using \<open>0 \<le> x / y\<close> by (simp add: js_rem_def)
qed

lemma normalizeAngle_fixed: "0 \<le> x \<Longrightarrow> x < 2 * pi \<Longrightarrow> normalizeAngle x = x"
  by (simp add: normalizeAngle_def Let_def js_rem_small)

lemma normalizeAngle_idem: "normalizeAngle (normalizeAngle x) = normalizeAngle x"
  using normalizeAngle_range [of x] by (simp add: normalizeAngle_fixed)

lemma normalizeAngle_shift: "\<exists>k::int. normalizeAngle x = x + 2 * pi * of_int k"
proof -
  define m :: int where "m = (if 0 \<le> x / (2 * pi) then \<lfloor>x / (2 * pi)\<rfloor> else \<lceil>x / (2 * pi)\<rceil>)"
  have r: "js_rem x (2 * pi) = x - 2 * pi * of_int m"
    by (simp add: js_rem_def m_def)
  show ?thesis
  proof (cases "js_rem x (2 * pi) < 0")
    case True
    then have "normalizeAngle x = x + 2 * pi * of_int (1 - m)"
      using r by (simp add: normalizeAngle_def Let_def algebra_simps)
    then show ?thesis ..
  next
    case False
    then have "normalizeAngle x = x + 2 * pi * of_int (- m)"
      using r by (simp add: normalizeAngle_def Let_def algebra_simps)
    then show ?thesis ..
  qed
qed

lemma normalizeAngle_trig:
  "cos (normalizeAngle x) = cos x" "sin (normalizeAngle x) = sin x"
proof -
  obtain k :: int where k: "normalizeAngle x = x + 2 * pi * of_int k"
    using normalizeAngle_shift by blast
  show "cos (normalizeAngle x) = cos x" "sin (normalizeAngle x) = sin x"
    unfolding k by (simp_all add: cos_add sin_add)
qed

lemma angle_from_cos_sin:
  "(if sin t < 0 then 2 * pi - arccos (cos t) else arccos (cos t)) = normalizeAngle t"
proof -
  define f where "f = normalizeAngle t"
  have range: "0 \<le> f" "f < 2 * pi"
    using normalizeAngle_range [of t] by (simp_all add: f_def)
  have trig: "cos t = cos f" "sin t = sin f"
    by (simp_all add: f_def normalizeAngle_trig)
  show ?thesis
  proof (cases "f \<le> pi")
    case True
    then have "0 \<le> sin f" using range by (simp add: sin_ge_zero)
    then show ?thesis
      using True range by (simp add: trig arccos_cos f_def [symmetric])
  next
    case False
    then have neg: "sin f < 0" using range by (simp add: sin_lt_zero)
    have "arccos (cos (2 * pi - f)) = 2 * pi - f"
      using False range by (intro arccos_cos) simp_all
    then have "arccos (cos f) = 2 * pi - f" by simp
    then show ?thesis
      using neg by (simp add: trig f_def [symmetric])
  qed
qed


section \<open>Properties of the orbit conversions\<close>

text \<open>
  The rotation of \<open>elementsToCartesian\<close> keeps lengths and inner products of
  vectors of the orbital plane, and turns their cross product to the third
  column of the matrix.
\<close>

lemma rot_norm:
  fixes cO sO ci si co so u0 u1 :: real
  assumes "sO * sO + cO * cO = 1" "si * si + ci * ci = 1" "so * so + co * co = 1"
  shows "((cO * co - sO * ci * so) * u0 + (- cO * so - sO * ci * co) * u1)
           * ((cO * co - sO * ci * so) * u0 + (- cO * so - sO * ci * co) * u1)
       + ((sO * co + cO * ci * so) * u0 + (- sO * so + cO * ci * co) * u1)
           * ((sO * co + cO * ci * so) * u0 + (- sO * so + cO * ci * co) * u1)
       + ((si * so) * u0 + (si * co) * u1) * ((si * so) * u0 + (si * co) * u1)
       = u0 * u0 + u1 * u1"
  using assms by algebra

lemma rot_dot:
  fixes cO sO ci si co so u0 u1 w0 w1 :: real
  assumes "sO * sO + cO * cO = 1" "si * si + ci * ci = 1" "so * so + co * co = 1"
  shows "((cO * co - sO * ci * so) * u0 + (- cO * so - sO * ci * co) * u1)
           * ((cO * co - sO * ci * so) * w0 + (- cO * so - sO * ci * co) * w1)
       + ((sO * co + cO * ci * so) * u0 + (- sO * so + cO * ci * co) * u1)
           * ((sO * co + cO * ci * so) * w0 + (- sO * so + cO * ci * co) * w1)
       + ((si * so) * u0 + (si * co) * u1) * ((si * so) * w0 + (si * co) * w1)
       = u0 * w0 + u1 * w1"
  using assms by algebra

lemma rot_cross_x:
  fixes cO sO ci si co so u0 u1 w0 w1 :: real
  assumes "sO * sO + cO * cO = 1" "si * si + ci * ci = 1" "so * so + co * co = 1"
  shows "((sO * co + cO * ci * so) * u0 + (- sO * so + cO * ci * co) * u1)
           * ((si * so) * w0 + (si * co) * w1)
       - ((si * so) * u0 + (si * co) * u1)
           * ((sO * co + cO * ci * so) * w0 + (- sO * so + cO * ci * co) * w1)
       = (u0 * w1 - u1 * w0) * (sO * si)"
  using assms by algebra

lemma rot_cross_y:
  fixes cO sO ci si co so u0 u1 w0 w1 :: real
  assumes "sO * sO + cO * cO = 1" "si * si + ci * ci = 1" "so * so + co * co = 1"
  shows "((si * so) * u0 + (si * co) * u1)
           * ((cO * co - sO * ci * so) * w0 + (- cO * so - sO * ci * co) * w1)
       - ((cO * co - sO * ci * so) * u0 + (- cO * so - sO * ci * co) * u1)
           * ((si * so) * w0 + (si * co) * w1)
       = (u0 * w1 - u1 * w0) * (- cO * si)"
  using assms by algebra

lemma rot_cross_z:
  fixes cO sO ci si co so u0 u1 w0 w1 :: real
  assumes "sO * sO + cO * cO = 1" "si * si + ci * ci = 1" "so * so + co * co = 1"
  shows "((cO * co - sO * ci * so) * u0 + (- cO * so - sO * ci * co) * u1)
           * ((sO * co + cO * ci * so) * w0 + (- sO * so + cO * ci * co) * w1)
       - ((sO * co + cO * ci * so) * u0 + (- sO * so + cO * ci * co) * u1)
           * ((cO * co - sO * ci * so) * w0 + (- cO * so - sO * ci * co) * w1)
       = (u0 * w1 - u1 * w0) * ci"
  using assms by algebra

text \<open>
  \<open>cartesianToElements\<close> on a state whose intermediate quantities are known.
\<close>

lemma cartesianToElements_eval:
  assumes "r = sqrt (x * x + y * y + z * z)"
    and "v = sqrt (vx * vx + vy * vy + vz * vz)"
    and "hx = y * vz - z * vy" and "hy = z * vx - x * vz" and "hz = x * vy - y * vx"
    and "h = sqrt (hx * hx + hy * hy + hz * hz)"
    and "denom = 2 / r - (v * v) / EARTH_MU"
    and "rv = x * vx + y * vy + z * vz"
    and "ex = (1 / EARTH_MU) * ((v * v - EARTH_MU / r) * x - rv * vx)"
    and "ey = (1 / EARTH_MU) * ((v * v - EARTH_MU / r) * y - rv * vy)"
    and "ez = (1 / EARTH_MU) * ((v * v - EARTH_MU / r) * z - rv * vz)"
    and "e = sqrt (ex * ex + ey * ey + ez * ez)"
    and "n = sqrt (- hy * - hy + hx * hx)"
    and "r \<noteq> 0" and "denom \<noteq> 0" and "\<not> 1 / denom < 0" and "\<not> h < 1 / 10000000000"
  shows "\<exists>el. cartesianToElements err \<lparr>position = (x, y, z), velocity = (vx, vy, vz)\<rparr> = Inr el
           \<and> elem_a el = 1 / denom
           \<and> elem_e el = e
           \<and> elem_i el = arccos (max (- 1) (min 1 (hz / h)))
           \<and> elem_Omega el = normalizeAngle
                (if n < 1 / 10000000000 then 0
                 else if hx < 0 then 2 * pi - arccos (- hy / n) else arccos (- hy / n))
           \<and> elem_omega el =
                (case (if n < 1 / 10000000000 \<or> e < 1 / 10000000000 then Finite 0
                       else (case Math_acos ((ex * - hy + ey * hx) / (e * n) + err) of
                               NaN \<Rightarrow> NaN
                             | Finite \<omega>0 \<Rightarrow> Finite (if ez < 0 then 2 * pi - \<omega>0 else \<omega>0))) of
                   NaN \<Rightarrow> NaN
                 | Finite \<omega>1 \<Rightarrow> Finite (normalizeAngle \<omega>1))
           \<and> elem_nu el \<noteq> None
           \<and> (\<not> e < 1 / 10000000000 \<longrightarrow>
                 elem_nu el = Some (normalizeAngle
                   (let \<nu>0 = atan2 (rv / (r * sqrt (EARTH_MU * (1 / denom) * (1 - e * e))))
                                    ((x * ex + y * ey + z * ez) / (r * e))
                    in if \<nu>0 < 0 then \<nu>0 + 2 * pi else \<nu>0)))"
  using assms(14-17)
  unfolding cartesianToElements_def assms(1-13) Let_def
  by simp

text \<open>
  The perifocal position and velocity of \<open>elementsToCartesian\<close>, and the
  round trip through both conversions.
\<close>

lemma sin_cos_sq: "sin x * sin x + cos x * cos x = (1::real)"
  using sin_cos_squared_add3 [of x] by (simp add: add.commute)

lemma perifocal_to_eci_planar:
  "perifocal_to_eci \<Omega> i \<omega> (u0, u1, 0)
     = ((cos \<Omega> * cos \<omega> - sin \<Omega> * cos i * sin \<omega>) * u0
          + (- cos \<Omega> * sin \<omega> - sin \<Omega> * cos i * cos \<omega>) * u1,
        (sin \<Omega> * cos \<omega> + cos \<Omega> * cos i * sin \<omega>) * u0
          + (- sin \<Omega> * sin \<omega> + cos \<Omega> * cos i * cos \<omega>) * u1,
        (sin i * sin \<omega>) * u0 + (sin i * cos \<omega>) * u1)"
  by (simp add: perifocal_to_eci_def Let_def)

lemma sqrt_square_pos: "0 \<le> x \<Longrightarrow> sqrt (x * x) = (x::real)"
  by simp

lemma perifocal_scalars:
  fixes a e \<nu> :: real
  assumes a: "0 < a" and e0: "0 \<le> e" and e1: "e < 1"
  defines "p \<equiv> a * (1 - e * e)"
  defines "r \<equiv> p / (1 + e * cos \<nu>)"
  defines "h \<equiv> sqrt (EARTH_MU * p)"
  defines "u0 \<equiv> r * cos \<nu>" and "u1 \<equiv> r * sin \<nu>"
  defines "w0 \<equiv> - (EARTH_MU / h) * sin \<nu>" and "w1 \<equiv> (EARTH_MU / h) * (e + cos \<nu>)"
  defines "v2 \<equiv> w0 * w0 + w1 * w1"
  defines "rv \<equiv> u0 * w0 + u1 * w1"
  shows "0 < r \<and> 0 < h \<and> 0 \<le> v2
    \<and> u0 * u0 + u1 * u1 = r * r
    \<and> u0 * w1 - u1 * w0 = h
    \<and> 2 / r - v2 / EARTH_MU = 1 / a
    \<and> (1 / EARTH_MU) * ((v2 - EARTH_MU / r) * u0 - rv * w0) = e
    \<and> (1 / EARTH_MU) * ((v2 - EARTH_MU / r) * u1 - rv * w1) = 0
    \<and> rv / (r * h) = e * sin \<nu> / p"
proof -
  define D where "D = 1 + e * cos \<nu>"
  define k where "k = EARTH_MU / h"
  define c where "c = cos \<nu>"
  define s where "s = sin \<nu>"
  have mu: "0 < EARTH_MU" by (simp add: EARTH_MU_def)
  have sc: "s * s + c * c = 1" by (simp add: s_def c_def sin_cos_sq)
  have "e * e < 1 * 1" using e0 e1 by (intro mult_strict_mono) simp_all
  then have p: "0 < p" using a by (simp add: p_def)
  have "- 1 \<le> c" by (simp add: c_def)
  then have "e * (- 1) \<le> e * c" using e0 by (intro mult_left_mono) simp_all
  then have D: "0 < D" using e1 by (simp add: D_def c_def)
  have r: "0 < r" using p D by (simp add: r_def D_def)
  have rD: "r * D = p" using D by (simp add: r_def D_def)
  have h: "0 < h" using mu p by (simp add: h_def)
  have hh: "h * h = EARTH_MU * p" using mu p by (simp add: h_def)
  have k: "0 < k" using mu h by (simp add: k_def)
  have kh: "k * h = EARTH_MU" using h by (simp add: k_def)
  have kp: "k * p = h"
  proof -
    have "k * p * h = h * h" using kh hh by (simp add: mult_ac)
    then show ?thesis using h by simp
  qed
  have kkp: "k * k * p = EARTH_MU" using kp kh by (simp add: mult_ac)
  have u: "u0 = r * c" "u1 = r * s" by (simp_all add: u0_def u1_def c_def s_def)
  have w: "w0 = - k * s" "w1 = k * (e + c)" by (simp_all add: w0_def w1_def k_def c_def s_def)
  have Dc: "D = 1 + e * c" by (simp add: D_def c_def)
  have c3: "0 \<le> v2" by (simp add: v2_def)
  have c4: "u0 * u0 + u1 * u1 = r * r"
    unfolding u using sc by algebra
  have "u0 * w1 - u1 * w0 = k * (r * D)"
    unfolding u w Dc using sc by algebra
  then have c5: "u0 * w1 - u1 * w0 = h" using rD kp by simp
  have v2k: "v2 = k * k * (1 + 2 * e * c + e * e)"
    unfolding v2_def w using sc by algebra
  have v2p: "v2 * p = EARTH_MU * (1 + 2 * e * c + e * e)"
    using kkp by (simp add: v2k mult_ac)
  have rvk: "rv = r * k * e * s"
    unfolding rv_def u w by algebra
  have one_e: "(1 - e * e) * a = p" by (simp add: p_def)
  have q1: "(2 / r - v2 / EARTH_MU) * p = 1 - e * e"
  proof -
    have "2 / r * p = 2 * D" using r rD by (simp add: field_simps)
    moreover have "v2 / EARTH_MU * p = 1 + 2 * e * c + e * e"
      using v2p mu by (simp add: field_simps)
    ultimately show ?thesis by (simp add: Dc algebra_simps)
  qed
  have c6: "2 / r - v2 / EARTH_MU = 1 / a"
  proof -
    have "(2 / r - v2 / EARTH_MU) * p * a = p" using q1 one_e by simp
    then have "(2 / r - v2 / EARTH_MU) * a = 1" using p by simp
    then show ?thesis using a by (simp add: field_simps)
  qed
  have A: "(v2 - EARTH_MU / r) * p = EARTH_MU * e * (e + c)"
  proof -
    have "EARTH_MU / r * p = EARTH_MU * D" using r rD by (simp add: field_simps)
    then show ?thesis using v2p by (simp add: Dc algebra_simps)
  qed
  have "((v2 - EARTH_MU / r) * u0 - rv * w0) * p = EARTH_MU * e * p"
  proof -
    have "((v2 - EARTH_MU / r) * u0 - rv * w0) * p
            = ((v2 - EARTH_MU / r) * p) * (r * c) + r * e * s * s * (k * k * p)"
      unfolding u w rvk by algebra
    also have "\<dots> = EARTH_MU * e * (r * D)"
      unfolding A kkp Dc using sc by algebra
    finally show ?thesis using rD by simp
  qed
  then have "(v2 - EARTH_MU / r) * u0 - rv * w0 = EARTH_MU * e" using p by simp
  then have c7: "(1 / EARTH_MU) * ((v2 - EARTH_MU / r) * u0 - rv * w0) = e" using mu by simp
  have "((v2 - EARTH_MU / r) * u1 - rv * w1) * p = 0"
  proof -
    have "((v2 - EARTH_MU / r) * u1 - rv * w1) * p
            = ((v2 - EARTH_MU / r) * p) * (r * s) - r * e * s * (e + c) * (k * k * p)"
      unfolding u w rvk by algebra
    also have "\<dots> = 0"
      unfolding A kkp by algebra
    finally show ?thesis .
  qed
  then have "(v2 - EARTH_MU / r) * u1 - rv * w1 = 0" using p by simp
  then have c8: "(1 / EARTH_MU) * ((v2 - EARTH_MU / r) * u1 - rv * w1) = 0" by simp
  have "rv / (r * h) * p = e * s"
  proof -
    have "rv / (r * h) * p = e * s * (k * p) / h"
      using r by (simp add: rvk)
    then show ?thesis using h by (simp add: kp)
  qed
  then have c9: "rv / (r * h) = e * sin \<nu> / p"
    using p by (simp add: s_def field_simps)
  show ?thesis using r h c3 c4 c5 c6 c7 c8 c9 by blast
qed

lemma roundtrip_eval:
  fixes a e i \<Omega> \<omega> \<nu> :: real
  assumes a: "0 < a" and e0: "0 \<le> e" and e1: "e < 1" and i0: "0 \<le> i" and i1: "i \<le> pi"
    and hbig: "1 / 10000000000 \<le> sqrt (EARTH_MU * (a * (1 - e * e)))"
  shows "\<exists>el'. roundtrip err \<lparr>elem_a = a, elem_e = e, elem_i = i, elem_Omega = \<Omega>,
                             elem_omega = Finite \<omega>, elem_nu = Some \<nu>, elem_M = M\<rparr> = Inr el'
           \<and> elem_a el' = a \<and> elem_e el' = e \<and> elem_i el' = i
           \<and> elem_Omega el'
               = (if sqrt (EARTH_MU * (a * (1 - e * e))) * sin i < 1 / 10000000000 then 0
                  else normalizeAngle \<Omega>)
           \<and> elem_omega el'
               = (if sqrt (EARTH_MU * (a * (1 - e * e))) * sin i < 1 / 10000000000
                     \<or> e < 1 / 10000000000 then Finite 0
                  else (case Math_acos (cos \<omega> + err) of
                          NaN \<Rightarrow> NaN
                        | Finite \<omega>0 \<Rightarrow>
                            Finite (normalizeAngle (if sin \<omega> < 0 then 2 * pi - \<omega>0 else \<omega>0))))
           \<and> elem_nu el' \<noteq> None
           \<and> (1 / 10000000000 \<le> e \<longrightarrow>
                 elem_nu el' = Some (normalizeAngle
                   (let \<nu>0 = atan2 (e * sin \<nu> / (a * (1 - e * e))) (cos \<nu>)
                    in if \<nu>0 < 0 then \<nu>0 + 2 * pi else \<nu>0)))"
proof -
  define p where "p = a * (1 - e * e)"
  define r where "r = p / (1 + e * cos \<nu>)"
  define h where "h = sqrt (EARTH_MU * p)"
  define u0 where "u0 = r * cos \<nu>"
  define u1 where "u1 = r * sin \<nu>"
  define w0 where "w0 = - (EARTH_MU / h) * sin \<nu>"
  define w1 where "w1 = (EARTH_MU / h) * (e + cos \<nu>)"
  define v2 where "v2 = w0 * w0 + w1 * w1"
  define rv where "rv = u0 * w0 + u1 * w1"
  note defs = p_def r_def h_def u0_def u1_def w0_def w1_def v2_def rv_def
  have r: "0 < r" and h: "0 < h" and v2: "0 \<le> v2"
    and S1: "u0 * u0 + u1 * u1 = r * r"
    and S4: "u0 * w1 - u1 * w0 = h"
    and S7: "2 / r - v2 / EARTH_MU = 1 / a"
    and L0: "(1 / EARTH_MU) * ((v2 - EARTH_MU / r) * u0 - rv * w0) = e"
    and L1: "(1 / EARTH_MU) * ((v2 - EARTH_MU / r) * u1 - rv * w1) = 0"
    and L2: "rv / (r * h) = e * sin \<nu> / p"
    using perifocal_scalars [OF a e0 e1, of \<nu>] unfolding defs by blast+
  define cO where "cO = cos \<Omega>"
  define sO where "sO = sin \<Omega>"
  define ci where "ci = cos i"
  define si where "si = sin i"
  define co where "co = cos \<omega>"
  define so where "so = sin \<omega>"
  have t: "sO * sO + cO * cO = 1" "si * si + ci * ci = 1" "so * so + co * co = 1"
    by (simp_all add: cO_def sO_def ci_def si_def co_def so_def sin_cos_sq)
  define x where "x = (cO * co - sO * ci * so) * u0 + (- cO * so - sO * ci * co) * u1"
  define y where "y = (sO * co + cO * ci * so) * u0 + (- sO * so + cO * ci * co) * u1"
  define z where "z = (si * so) * u0 + (si * co) * u1"
  define vx where "vx = (cO * co - sO * ci * so) * w0 + (- cO * so - sO * ci * co) * w1"
  define vy where "vy = (sO * co + cO * ci * so) * w0 + (- sO * so + cO * ci * co) * w1"
  define vz where "vz = (si * so) * w0 + (si * co) * w1"
  define ex where "ex = (cO * co - sO * ci * so) * e"
  define ey where "ey = (sO * co + cO * ci * so) * e"
  define ez where "ez = (si * so) * e"
  define hx where "hx = h * (sO * si)"
  define hy where "hy = h * (- cO * si)"
  define hz where "hz = h * ci"
  define n where "n = h * si"
  have si0: "0 \<le> si" using i0 i1 by (simp add: si_def sin_ge_zero)
  have e2c: "elementsToCartesian \<lparr>elem_a = a, elem_e = e, elem_i = i, elem_Omega = \<Omega>,
                 elem_omega = Finite \<omega>, elem_nu = Some \<nu>, elem_M = M\<rparr>
               = Inr \<lparr>position = (x, y, z), velocity = (vx, vy, vz)\<rparr>"
    by (simp add: elementsToCartesian_def Let_def perifocal_to_eci_planar
          x_def y_def z_def vx_def vy_def vz_def cO_def sO_def ci_def si_def co_def so_def defs)
  have N1: "x * x + y * y + z * z = r * r"
    unfolding x_def y_def z_def using rot_norm [OF t, of u0 u1] S1 by simp
  have N2: "vx * vx + vy * vy + vz * vz = v2"
    unfolding vx_def vy_def vz_def v2_def using rot_norm [OF t, of w0 w1] by simp
  have N3: "x * vx + y * vy + z * vz = rv"
    unfolding x_def y_def z_def vx_def vy_def vz_def rv_def using rot_dot [OF t, of u0 u1 w0 w1] by simp
  have C1: "hx = y * vz - z * vy"
    unfolding y_def z_def vy_def vz_def hx_def using rot_cross_x [OF t, of u0 u1 w0 w1] S4 by simp
  have C2: "hy = z * vx - x * vz"
    unfolding x_def z_def vx_def vz_def hy_def using rot_cross_y [OF t, of u0 u1 w0 w1] S4 by simp
  have C3: "hz = x * vy - y * vx"
    unfolding x_def y_def vx_def vy_def hz_def using rot_cross_z [OF t, of u0 u1 w0 w1] S4 by simp
  have P1: "r = sqrt (x * x + y * y + z * z)"
    using r by (simp add: N1)
  have P2: "sqrt v2 = sqrt (vx * vx + vy * vy + vz * vz)"
    by (simp add: N2)
  have vv: "sqrt v2 * sqrt v2 = v2" using v2 by simp
  have "hx * hx + hy * hy + hz * hz = h * h"
    unfolding hx_def hy_def hz_def using t by algebra
  then have P6: "h = sqrt (hx * hx + hy * hy + hz * hz)"
    using h by simp
  have P7: "1 / a = 2 / r - (sqrt v2 * sqrt v2) / EARTH_MU"
    by (simp only: vv S7)
  have P9: "ex = (1 / EARTH_MU) * ((sqrt v2 * sqrt v2 - EARTH_MU / r) * x - rv * vx)"
  proof -
    have "(1 / EARTH_MU) * ((v2 - EARTH_MU / r) * x - rv * vx)
            = (cO * co - sO * ci * so) * ((1 / EARTH_MU) * ((v2 - EARTH_MU / r) * u0 - rv * w0))
              + (- cO * so - sO * ci * co) * ((1 / EARTH_MU) * ((v2 - EARTH_MU / r) * u1 - rv * w1))"
      unfolding x_def vx_def by (simp add: algebra_simps)
    then show ?thesis by (simp only: vv L0 L1 ex_def)
  qed
  have P10: "ey = (1 / EARTH_MU) * ((sqrt v2 * sqrt v2 - EARTH_MU / r) * y - rv * vy)"
  proof -
    have "(1 / EARTH_MU) * ((v2 - EARTH_MU / r) * y - rv * vy)
            = (sO * co + cO * ci * so) * ((1 / EARTH_MU) * ((v2 - EARTH_MU / r) * u0 - rv * w0))
              + (- sO * so + cO * ci * co) * ((1 / EARTH_MU) * ((v2 - EARTH_MU / r) * u1 - rv * w1))"
      unfolding y_def vy_def by (simp add: algebra_simps)
    then show ?thesis by (simp only: vv L0 L1 ey_def)
  qed
  have P11: "ez = (1 / EARTH_MU) * ((sqrt v2 * sqrt v2 - EARTH_MU / r) * z - rv * vz)"
  proof -
    have "(1 / EARTH_MU) * ((v2 - EARTH_MU / r) * z - rv * vz)
            = (si * so) * ((1 / EARTH_MU) * ((v2 - EARTH_MU / r) * u0 - rv * w0))
              + (si * co) * ((1 / EARTH_MU) * ((v2 - EARTH_MU / r) * u1 - rv * w1))"
      unfolding z_def vz_def by (simp add: algebra_simps)
    then show ?thesis by (simp only: vv L0 L1 ez_def)
  qed
  have "ex * ex + ey * ey + ez * ez = e * e"
    unfolding ex_def ey_def ez_def using rot_norm [OF t, of e 0] by simp
  then have P12: "e = sqrt (ex * ex + ey * ey + ez * ez)"
    using e0 by simp
  have "- hy * - hy + hx * hx = n * n"
    unfolding hx_def hy_def n_def using t(1) by algebra
  moreover have n0: "0 \<le> n" using h si0 by (simp add: n_def)
  ultimately have P13: "n = sqrt (- hy * - hy + hx * hx)"
    by simp
  have g1: "r \<noteq> 0" using r by simp
  have g2: "1 / a \<noteq> 0" using a by simp
  have g3: "\<not> 1 / (1 / a) < 0" using a by simp
  have g4: "\<not> h < 1 / 10000000000" using hbig by (simp add: h_def p_def)
  obtain el' where c2e: "cartesianToElements err \<lparr>position = (x, y, z), velocity = (vx, vy, vz)\<rparr> = Inr el'"
    and ra: "elem_a el' = 1 / (1 / a)"
    and re: "elem_e el' = e"
    and ri: "elem_i el' = arccos (max (- 1) (min 1 (hz / h)))"
    and rO: "elem_Omega el' = normalizeAngle
                (if n < 1 / 10000000000 then 0
                 else if hx < 0 then 2 * pi - arccos (- hy / n) else arccos (- hy / n))"
    and ro: "elem_omega el' =
                (case (if n < 1 / 10000000000 \<or> e < 1 / 10000000000 then Finite 0
                       else (case Math_acos ((ex * - hy + ey * hx) / (e * n) + err) of
                               NaN \<Rightarrow> NaN
                             | Finite \<omega>0 \<Rightarrow> Finite (if ez < 0 then 2 * pi - \<omega>0 else \<omega>0))) of
                   NaN \<Rightarrow> NaN
                 | Finite \<omega>1 \<Rightarrow> Finite (normalizeAngle \<omega>1))"
    and rn: "elem_nu el' \<noteq> None"
    and rnu: "\<not> e < 1 / 10000000000 \<longrightarrow>
                 elem_nu el' = Some (normalizeAngle
                   (let \<nu>0 = atan2 (rv / (r * sqrt (EARTH_MU * (1 / (1 / a)) * (1 - e * e))))
                                    ((x * ex + y * ey + z * ez) / (r * e))
                    in if \<nu>0 < 0 then \<nu>0 + 2 * pi else \<nu>0))"
    using cartesianToElements_eval [OF P1 P2 C1 C2 C3 P6 P7 N3 [symmetric] P9 P10 P11 P12 P13 g1 g2 g3 g4,
            of err]
    by blast
  have rt: "roundtrip err \<lparr>elem_a = a, elem_e = e, elem_i = i, elem_Omega = \<Omega>,
                             elem_omega = Finite \<omega>, elem_nu = Some \<nu>, elem_M = M\<rparr> = Inr el'"
    by (simp add: roundtrip_def e2c c2e)
  have qa: "elem_a el' = a" using ra a by simp
  have "hz / h = ci" using h by (simp add: hz_def)
  moreover have "- 1 \<le> ci" "ci \<le> 1" by (simp_all add: ci_def)
  ultimately have qi: "elem_i el' = i"
    using ri i0 i1 by (simp add: ci_def arccos_cos)
  have hn: "sqrt (EARTH_MU * (a * (1 - e * e))) * sin i = n"
    by (simp add: n_def h_def p_def si_def)
  have zero: "normalizeAngle 0 = 0"
    by (simp add: normalizeAngle_fixed)
  have qO: "elem_Omega el' = (if n < 1 / 10000000000 then 0 else normalizeAngle \<Omega>)"
  proof (cases "n < 1 / 10000000000")
    case True
    then show ?thesis using rO zero by simp
  next
    case False
    then have npos: "0 < n" by simp
    then have sipos: "0 < si" using h by (simp add: n_def zero_less_mult_iff)
    have c: "- hy / n = cos \<Omega>" using h sipos by (simp add: hy_def n_def cO_def)
    have sgn: "hx < 0 \<longleftrightarrow> sin \<Omega> < 0"
      using h sipos by (simp add: hx_def sO_def mult_less_0_iff zero_less_mult_iff)
    have "elem_Omega el' = normalizeAngle
            (if hx < 0 then 2 * pi - arccos (- hy / n) else arccos (- hy / n))"
      using rO False by (simp only: if_False)
    then have "elem_Omega el' = normalizeAngle \<Omega>"
      by (simp only: c sgn angle_from_cos_sin normalizeAngle_idem)
    then show ?thesis
      using False by (simp only: if_False)
  qed
  have qo: "elem_omega el'
              = (if n < 1 / 10000000000 \<or> e < 1 / 10000000000 then Finite 0
                 else (case Math_acos (cos \<omega> + err) of
                         NaN \<Rightarrow> NaN
                       | Finite \<omega>0 \<Rightarrow>
                           Finite (normalizeAngle (if sin \<omega> < 0 then 2 * pi - \<omega>0 else \<omega>0))))"
  proof (cases "n < 1 / 10000000000 \<or> e < 1 / 10000000000")
    case True
    then show ?thesis using ro zero by simp
  next
    case False
    then have npos: "0 < n" and epos: "0 < e" by simp_all
    then have sipos: "0 < si" using h by (simp add: n_def zero_less_mult_iff)
    have "ex * - hy + ey * hx = (e * n) * co"
      unfolding ex_def ey_def hx_def hy_def n_def using t(1) by algebra
    then have c: "(ex * - hy + ey * hx) / (e * n) = cos \<omega>"
      using npos epos by (simp add: co_def)
    have sgn: "ez < 0 \<longleftrightarrow> sin \<omega> < 0"
      using epos sipos by (simp add: ez_def so_def mult_less_0_iff zero_less_mult_iff)
    show ?thesis
      using ro False unfolding c sgn by (simp split: js_number.splits)
  qed
  have qnu: "elem_nu el' = Some (normalizeAngle
                   (let \<nu>0 = atan2 (e * sin \<nu> / (a * (1 - e * e))) (cos \<nu>)
                    in if \<nu>0 < 0 then \<nu>0 + 2 * pi else \<nu>0))"
    if big: "1 / 10000000000 \<le> e"
  proof -
    have epos: "0 < e" using big by simp
    have "x * ex + y * ey + z * ez = u0 * e"
      unfolding x_def y_def z_def ex_def ey_def ez_def using rot_dot [OF t, of u0 u1 e 0] by simp
    then have c: "(x * ex + y * ey + z * ez) / (r * e) = cos \<nu>"
      using r epos by (simp add: u0_def)
    have "EARTH_MU * (1 / (1 / a)) * (1 - e * e) = EARTH_MU * p"
      by (simp add: p_def)
    then have "sqrt (EARTH_MU * (1 / (1 / a)) * (1 - e * e)) = h"
      by (simp only: h_def)
    then have s: "rv / (r * sqrt (EARTH_MU * (1 / (1 / a)) * (1 - e * e)))
                    = e * sin \<nu> / (a * (1 - e * e))"
      using L2 by (simp only: p_def)
    have "\<not> e < 1 / 10000000000" using big by simp
    then have "elem_nu el' = Some (normalizeAngle
                   (let \<nu>0 = atan2 (rv / (r * sqrt (EARTH_MU * (1 / (1 / a)) * (1 - e * e))))
                                    ((x * ex + y * ey + z * ez) / (r * e))
                    in if \<nu>0 < 0 then \<nu>0 + 2 * pi else \<nu>0))"
      using rnu by blast
    then show ?thesis by (simp only: c s)
  qed
  show ?thesis
    using rt qa re qi qO qo rn qnu unfolding hn by blast
qed

lemma angular_momentum_not_small:
  "1 \<le> x \<Longrightarrow> 1 / 10000000000 \<le> sqrt (EARTH_MU * x)"
proof -
  assume x: "1 \<le> x"
  have "1 \<le> EARTH_MU" by (simp add: EARTH_MU_def)
  then have "1 * 1 \<le> EARTH_MU * x" using x by (intro mult_mono) simp_all
  then have "(1 / 10000000000)\<^sup>2 \<le> EARTH_MU * x"
    by (simp add: power2_eq_square)
  then show ?thesis by (rule real_le_rsqrt)
qed



text \<open>
  The true anomaly is not recovered on an orbit that is neither circular nor
  equatorial: \<open>cartesianToElements\<close> divides the radial velocity term by the
  angular momentum where the sine of the true anomaly needs it multiplied by
  the angular momentum over \<open>\<mu> e\<close>, so that the returned angle is
  \<open>atan2(e sin \<nu> / p, cos \<nu>)\<close>.
\<close>

lemma normalizeAngle_negative:
  assumes "- (2 * pi) < x" and "x < 0"
  shows "normalizeAngle x = x + 2 * pi"
proof -
  have q: "x / (2 * pi) < 0" using assms(2) by (simp add: divide_less_0_iff)
  have "- 1 < x / (2 * pi)" using assms(1) by (simp add: field_simps)
  then have "\<lceil>x / (2 * pi)\<rceil> = 0" using q by (simp add: ceiling_eq_iff)
  then have "js_rem x (2 * pi) = x" using q by (simp add: js_rem_def)
  then show ?thesis using assms(2) by (simp add: normalizeAngle_def Let_def)
qed

lemma arctan_small: "0 < x \<Longrightarrow> x < 1 / 7 \<Longrightarrow> 0 < arctan x \<and> arctan x < pi / 20"
proof -
  assume x: "0 < x" "x < 1 / 7"
  have "arctan x < arctan (1 / 7)" using x(2) by (rule arctan_monotone)
  moreover have "0 < arctan (3 / 79 :: real)" by simp
  ultimately have "5 * arctan x < pi / 4" using machin_Euler by linarith
  then show ?thesis using x(1) by simp
qed

lemma true_anomaly_not_recovered: "\<not> roundtrip_recovers err polar_elliptical"
proof -
  have hb: "1 / 10000000000 \<le> sqrt (EARTH_MU * (7000000 * (1 - 1 / 10 * (1 / 10))))"
    by (rule angular_momentum_not_small) simp
  obtain el' where rt: "roundtrip err polar_elliptical = Inr el'"
    and nu: "elem_nu el' = Some (normalizeAngle
                   (let \<nu>0 = atan2 (1 / 10 * sin (pi / 4) / (7000000 * (1 - 1 / 10 * (1 / 10))))
                                    (cos (pi / 4))
                    in if \<nu>0 < 0 then \<nu>0 + 2 * pi else \<nu>0))"
    using roundtrip_eval [where a = 7000000 and e = "1 / 10" and i = "pi / 2" and \<Omega> = "pi / 4"
            and \<omega> = "pi / 3" and \<nu> = "pi / 4" and M = None and err = err, OF _ _ _ _ _ hb]
    unfolding polar_elliptical_def by auto
  define t where "t = arctan (1 / 69300000)"
  have t: "0 < t" "t < pi / 20"
    using arctan_small [of "1 / 69300000"] by (simp_all add: t_def)
  have "atan2 (1 / 10 * sin (pi / 4) / (7000000 * (1 - 1 / 10 * (1 / 10)))) (cos (pi / 4)) = t"
    by (simp add: atan2_def sin_45 cos_45 t_def)
  then have "elem_nu el' = Some (normalizeAngle t)"
    using nu t(1) by (simp add: Let_def)
  moreover have "normalizeAngle t = t"
    using t pi_gt_zero by (intro normalizeAngle_fixed) linarith+
  ultimately have nu': "elem_nu el' = Some t" by simp
  have "normalizeAngle (t - pi / 4) = t - pi / 4 + 2 * pi"
    using t pi_gt_zero by (intro normalizeAngle_negative) linarith+
  then have "\<not> angle_close t (pi / 4)"
    using t pi_ge_two by (simp add: angle_close_def Let_def)
  then show ?thesis
    using rt nu' by (simp add: roundtrip_recovers_def) (simp add: polar_elliptical_def)
qed

text \<open>
  The argument of periapsis of an orbit that is neither circular nor
  equatorial. In exact arithmetic it is recovered. With the quotient one unit
  in the last place above 1, which is what the doubles of the source give on
  the polar orbit of the test \<open>handles polar orbit (i=\<pi>/2)\<close>, it is NaN:
  this \<open>Math.acos\<close> is not clamped, as the one of the inclination and the
  one of the argument of latitude are.
\<close>

lemma argument_of_periapsis_exact:
  assumes "0 < elem_a el" and "0 \<le> elem_e el" and "elem_e el < 1"
    and "0 \<le> elem_i el" and "elem_i el \<le> pi" and "elem_nu el \<noteq> None"
    and "elem_omega el = Finite \<omega>"
    and "1 / 10000000000 \<le> sqrt (EARTH_MU * (elem_a el * (1 - elem_e el * elem_e el)))"
    and "1 / 10000000000
           \<le> sqrt (EARTH_MU * (elem_a el * (1 - elem_e el * elem_e el))) * sin (elem_i el)"
    and "1 / 10000000000 \<le> elem_e el"
  shows "\<exists>el'. roundtrip 0 el = Inr el' \<and> elem_omega el' = Finite (normalizeAngle \<omega>)"
proof -
  obtain \<nu> where nu: "elem_nu el = Some \<nu>" using assms(6) by blast
  have el: "el = \<lparr>elem_a = elem_a el, elem_e = elem_e el, elem_i = elem_i el,
                   elem_Omega = elem_Omega el, elem_omega = Finite \<omega>,
                   elem_nu = Some \<nu>, elem_M = elem_M el\<rparr>"
    using nu assms(7) by simp
  obtain el' where rt: "roundtrip 0 el = Inr el'"
    and ro: "elem_omega el'
               = (if sqrt (EARTH_MU * (elem_a el * (1 - elem_e el * elem_e el))) * sin (elem_i el)
                       < 1 / 10000000000
                     \<or> elem_e el < 1 / 10000000000 then Finite 0
                  else (case Math_acos (cos \<omega> + 0) of
                          NaN \<Rightarrow> NaN
                        | Finite \<omega>0 \<Rightarrow>
                            Finite (normalizeAngle (if sin \<omega> < 0 then 2 * pi - \<omega>0 else \<omega>0))))"
    using roundtrip_eval [OF assms(1-5,8), where \<Omega> = "elem_Omega el" and \<omega> = \<omega> and \<nu> = \<nu>
            and M = "elem_M el" and err = 0]
    unfolding el [symmetric] by blast
  have "Math_acos (cos \<omega> + 0) = Finite (arccos (cos \<omega>))"
    by (simp add: Math_acos_def)
  then have "elem_omega el'
               = Finite (normalizeAngle (if sin \<omega> < 0 then 2 * pi - arccos (cos \<omega>)
                                         else arccos (cos \<omega>)))"
    using ro assms(9,10) by simp
  then have "elem_omega el' = Finite (normalizeAngle \<omega>)"
    by (simp only: angle_from_cos_sin normalizeAngle_idem)
  then show ?thesis using rt by blast
qed

lemma argument_of_periapsis_not_a_number:
  "\<exists>el'. roundtrip (1 / 2 ^ 52) polar_at_node = Inr el' \<and> elem_omega el' = NaN"
proof -
  have hb: "1 / 10000000000 \<le> sqrt (EARTH_MU * (7000000 * (1 - 1 / 10 * (1 / 10))))"
    by (rule angular_momentum_not_small) simp
  obtain el' where rt: "roundtrip (1 / 2 ^ 52) polar_at_node = Inr el'"
    and ro: "elem_omega el'
               = (if sqrt (EARTH_MU * (7000000 * (1 - 1 / 10 * (1 / 10)))) * sin (pi / 2)
                       < 1 / 10000000000
                     \<or> (1 / 10 :: real) < 1 / 10000000000 then Finite 0
                  else (case Math_acos (cos 0 + 1 / 2 ^ 52) of
                          NaN \<Rightarrow> NaN
                        | Finite \<omega>0 \<Rightarrow>
                            Finite (normalizeAngle (if sin (0::real) < 0 then 2 * pi - \<omega>0 else \<omega>0))))"
    using roundtrip_eval [where a = 7000000 and e = "1 / 10" and i = "pi / 2" and \<Omega> = "pi / 4"
            and \<omega> = 0 and \<nu> = 0 and M = None and err = "1 / 2 ^ 52", OF _ _ _ _ _ hb]
    unfolding polar_at_node_def by auto
  have "Math_acos (cos 0 + 1 / 2 ^ 52) = NaN"
    by (simp add: Math_acos_def)
  then have "elem_omega el' = NaN"
    using ro hb by simp
  then show ?thesis using rt by blast
qed




section \<open>Properties of the propagator\<close>

text \<open>
  In exact arithmetic the statement \<open>M1 = normalizeAngle(M1)\<close> of
  \<open>propagateKepler\<close> changes nothing: \<open>solveKeplerEquation\<close> normalizes the
  mean anomaly it is given, and normalizing twice is normalizing once.
\<close>

lemma solveKeplerEquation_normalized:
  "solveKeplerEquation (normalizeAngle M) e = solveKeplerEquation M e"
  by (simp only: solveKeplerEquation_def normalizeAngle_idem)

lemma propagateKepler_exact_arithmetic:
  "propagateKepler err s deltaTime = propagateKepler_unnormalized err s deltaTime"
  by (simp add: propagateKepler_def propagateKepler_unnormalized_def elementsToCartesian_def
        solveKeplerEquation_normalized Let_def
        split: sum.splits option.splits js_number.splits)

text \<open>
  This does not carry over to the doubles of the source, where the sum of
  \<open>normalizeAngle\<close> is rounded. A negative angle of magnitude below \<open>2\<^sup>-\<^sup>5\<^sup>1\<close>
  is sent to \<open>2 * Math.PI\<close> itself, which is not in \<open>[0, 2\<pi>)\<close>, and
  \<open>2 * Math.PI\<close> is sent to 0: normalizing twice is not normalizing once. On
  an advanced mean anomaly of this kind \<open>solveKeplerEquation\<close> solves for the
  mean anomaly 0 when \<open>propagateKepler\<close> has normalized it, and for
  \<open>2 * Math.PI\<close> when it has not. What the Newton iteration returns on each of
  the two, and so whether the two returned states are the same doubles, is
  decided by the rounding of every operation and by the values of
  \<open>Math.sin\<close>, \<open>Math.cos\<close> and \<open>Math.atan2\<close>, which the language leaves to
  the implementation.
\<close>

lemma two_pi_double: "2 * Math_PI = 7074237752028440 / 2 ^ 50"
  by (simp add: Math_PI_def)

lemma js_rem_tiny_negative:
  assumes "- (1 / 2 ^ 51) < x" and "x < 0"
  shows "js_rem x (2 * Math_PI) = x"
proof -
  have p: "0 < 2 * Math_PI" by (simp add: Math_PI_def)
  have q: "x / (2 * Math_PI) < 0" using assms(2) p by (simp add: divide_less_0_iff)
  have "- (2 * Math_PI) < x" using assms(1) by (simp add: Math_PI_def)
  then have "- 1 < x / (2 * Math_PI)" using p by (simp add: field_simps)
  then have "\<lceil>x / (2 * Math_PI)\<rceil> = 0" using q by (simp add: ceiling_eq_iff)
  then show ?thesis using q by (simp add: js_rem_def)
qed

lemma round_double_below_two_pi:
  assumes "- (1 / 2 ^ 51) < x" and "x < 0"
  shows "round_double (x + 2 * Math_PI) = 2 * Math_PI"
proof -
  define y where "y = x + 2 * Math_PI"
  have y4: "4 \<le> y" and y8: "y < 8"
    using assms by (simp_all add: y_def Math_PI_def)
  have "\<lfloor>log 2 y\<rfloor> = 2"
    using y4 y8 by (subst floor_log_eq_powr_iff) simp_all
  then have k: "\<lfloor>log 2 \<bar>y\<bar>\<rfloor> - 52 = - 50" using y4 by simp
  define u where "u = x * 2 ^ 50"
  have s: "y / 2 powi (- 50) = 7074237752028440 + u"
    by (simp add: y_def u_def Math_PI_def power_int_minus field_simps)
  have lo: "- (1 / 2) < u" using assms(1) by (simp add: u_def field_simps)
  have hi: "u < 0" using assms(2) by (simp add: u_def mult_less_0_iff)
  have "\<lfloor>u\<rfloor> = - 1" using lo hi by (simp add: floor_eq_iff)
  then have fl: "\<lfloor>7074237752028440 + u\<rfloor> = 7074237752028439" by simp
  have "round_half_even (7074237752028440 + u) = 7074237752028440"
    unfolding round_half_even_def fl Let_def using lo by simp
  then have "round_double y = 7074237752028440 * 2 powi (- 50)"
    using y4 unfolding round_double_def k Let_def s by simp
  also have "\<dots> = 2 * Math_PI"
    by (simp add: Math_PI_def power_int_minus)
  finally show ?thesis
    unfolding y_def .
qed

lemma normalizeAngle_double_tiny_negative:
  assumes "- (1 / 2 ^ 51) < x" and "x < 0"
  shows "normalizeAngle_double x = 2 * Math_PI"
  using assms by (simp add: normalizeAngle_double_def js_rem_tiny_negative
        round_double_below_two_pi Let_def)

lemma normalizeAngle_double_two_pi: "normalizeAngle_double (2 * Math_PI) = 0"
  by (simp add: normalizeAngle_double_def js_rem_def Math_PI_def Let_def)

lemma normalizeAngle_double_not_idempotent:
  "normalizeAngle_double (- (1 / 2 ^ 60)) = 2 * Math_PI
   \<and> normalizeAngle_double (normalizeAngle_double (- (1 / 2 ^ 60))) = 0
   \<and> normalizeAngle_double (normalizeAngle_double (- (1 / 2 ^ 60)))
       \<noteq> normalizeAngle_double (- (1 / 2 ^ 60))"
proof -
  have a: "normalizeAngle_double (- (1 / 2 ^ 60)) = 2 * Math_PI"
    by (rule normalizeAngle_double_tiny_negative) simp_all
  have "2 * Math_PI \<noteq> 0" by (simp add: Math_PI_def)
  then show ?thesis
    unfolding a normalizeAngle_double_two_pi by simp
qed


section \<open>Properties of the simulation clock\<close>

text \<open>
  C6. On a running clock with the constructor's defaults, \<open>setTimeScale(0)\<close>
  stores the clamped scale 0.1 and does not pause: the test for 0 reads the
  value after clamping, which is never 0.
\<close>

theorem setTimeScale_zero_not_paused:
  "setTimeScale 0 SimClock_default = SimClock_default\<lparr>timeScale := 1 / 10\<rparr>
   \<and> \<not> paused (setTimeScale 0 SimClock_default)
   \<and> update 1 (setTimeScale 0 SimClock_default)
       = (1 / 10, SimClock_default\<lparr>timeScale := 1 / 10, simTime := 1 / 10\<rparr>)"
  by (simp add: setTimeScale_def SimClock_default_def update_def Let_def)

end
